theory Spec2Isabelle
  imports Main "HOL-Library.Word"
begin

section \<open>Data model\<close>

text \<open>
  The embedding follows \<^verbatim>\<open>VectorTransferSplitRewritePatterns.cpp\<close>. Sizes, strides
  and offsets are \<^verbatim>\<open>int64_t\<close> in the source and 64-bit words here; comparisons are
  signed. Locations are left out: they carry no behaviour.
\<close>

type_synonym i64 = "64 word"

text \<open>An \<^verbatim>\<open>assert\<close> of the source that does not hold.\<close>

datatype error = AssertionFailure

datatype LogicalResult = success | failure

text \<open>\<^verbatim>\<open>enum class VectorTransferSplit\<close>, the only option the file reads.\<close>

datatype VectorTransferSplit = SplitNone | VectorTransfer | LinalgCopy | ForceInBounds

datatype ElementType = ScalarType nat | VectorType "i64 list" ElementType

datatype Layout = IdentityLayout | StridedLayoutAttr i64 "i64 list" | OpaqueLayout nat

text \<open>
  A \<^verbatim>\<open>MemRefType\<close>: a dynamic extent is the sentinel \<^verbatim>\<open>ShapedType::kDynamic\<close> in
  \<open>shape\<close>. The null type of the source is \<open>None\<close> of \<open>MemRefType option\<close>.
\<close>

record MemRefType =
  shape :: "i64 list"
  elementType :: ElementType
  layout :: Layout

definition getRank :: "MemRefType \<Rightarrow> nat" where
  "getRank t = length (shape t)"

text \<open>
  What the file uses of the type library without defining it: the sentinel
  \<^verbatim>\<open>ShapedType::kDynamic\<close>, \<^verbatim>\<open>memref::CastOp::areCastCompatible\<close> and
  \<^verbatim>\<open>getStridesAndOffset\<close> (\<open>None\<close> when it fails: the type is not strided).
  They are parameters of the model.
\<close>

record Externals =
  kDynamic :: i64
  areCastCompatible :: "MemRefType \<Rightarrow> MemRefType \<Rightarrow> bool"
  getStridesAndOffset :: "MemRefType \<Rightarrow> (i64 list \<times> i64) option"

text \<open>\<^verbatim>\<open>operator[]\<close> of \<^verbatim>\<open>ArrayRef\<close> and \<^verbatim>\<open>SmallVector\<close>, with its assertion.\<close>

definition at :: "'a list \<Rightarrow> nat \<Rightarrow> error + 'a" where
  "at xs i = (if i < length xs then Inr (xs ! i) else Inl AssertionFailure)"

definition bind :: "error + 'a \<Rightarrow> ('a \<Rightarrow> error + 'b) \<Rightarrow> error + 'b" where
  "bind m f = (case m of Inl e \<Rightarrow> Inl e | Inr v \<Rightarrow> f v)"

section \<open>getCastCompatibleMemRefType\<close>

text \<open>
  One iteration of the loop over \<open>idx\<close>: it writes \<open>resShape[idx]\<close> and
  \<open>resStrides[idx]\<close>.
\<close>

definition unifyStep ::
  "i64 \<Rightarrow> i64 list \<Rightarrow> i64 list \<Rightarrow> i64 list \<Rightarrow> i64 list \<Rightarrow> nat \<Rightarrow>
   error + (i64 list \<times> i64 list) \<Rightarrow> error + (i64 list \<times> i64 list)" where
  "unifyStep dyn aShape bShape aStrides bStrides idx acc =
     bind acc (\<lambda>(resShape, resStrides).
     bind (at aShape idx) (\<lambda>a.
     bind (at bShape idx) (\<lambda>b.
     bind (at aStrides idx) (\<lambda>sa.
     bind (at bStrides idx) (\<lambda>sb.
       if idx < length resShape \<and> idx < length resStrides
       then Inr (resShape[idx := (if a = b then a else dyn)],
                 resStrides[idx := (if sa = sb then sa else dyn)])
       else Inl AssertionFailure)))))"

definition getCastCompatibleMemRefType ::
  "Externals \<Rightarrow> MemRefType \<Rightarrow> MemRefType \<Rightarrow> error + MemRefType option" where
  "getCastCompatibleMemRefType ext aT bT =
     (if areCastCompatible ext aT bT then Inr (Some aT)
      else if getRank aT \<noteq> getRank bT then Inr None
      else case (getStridesAndOffset ext aT, getStridesAndOffset ext bT) of
          (Some (aStrides, aOffset), Some (bStrides, bOffset)) \<Rightarrow>
            if length aStrides \<noteq> length bStrides then Inr None
            else
              bind (fold (unifyStep (kDynamic ext) (shape aT) (shape bT) aStrides bStrides)
                      [0..<getRank aT]
                      (Inr (replicate (getRank aT) 0, replicate (getRank bT) 0)))
                (\<lambda>(resShape, resStrides).
                   let resOffset = (if aOffset = bOffset then aOffset else kDynamic ext)
                   in Inr (Some \<lparr>shape = resShape, elementType = elementType aT,
                                 layout = StridedLayoutAttr resOffset resStrides\<rparr>))
        | _ \<Rightarrow> Inr None)"

section \<open>getAutomaticAllocationScope\<close>

datatype OpName = ScfForOp | AffineForOp | ScfIfOp | FuncOp | OtherOp nat

text \<open>
  An enclosing operation, as far as the file looks at it: its name, whether it has the
  trait \<^verbatim>\<open>OpTrait::AutomaticAllocationScope\<close>, and how many regions it has. The
  ancestors of an operation are a list, the parent first.
\<close>

record Ancestor =
  opName :: OpName
  hasAutomaticAllocationScope :: bool
  numRegions :: nat

definition isLoop :: "Ancestor \<Rightarrow> bool" where
  "isLoop p = (opName p = ScfForOp \<or> opName p = AffineForOp)"

text \<open>
  The \<^verbatim>\<open>for\<close> loop over \<open>parent\<close>: \<open>i\<close> is the position of \<open>parent\<close> in the
  chain, \<open>scope\<close> the position recorded so far.
\<close>

fun scopeWalk :: "Ancestor list \<Rightarrow> nat \<Rightarrow> nat option \<Rightarrow> nat option" where
  "scopeWalk [] i scope = scope"
| "scopeWalk (parent # rest) i scope =
     (let scope' = (if hasAutomaticAllocationScope parent then Some i else scope)
      in if \<not> isLoop parent then scope' else scopeWalk rest (Suc i) scope')"

definition getAutomaticAllocationScope :: "Ancestor list \<Rightarrow> error + nat" where
  "getAutomaticAllocationScope parents =
     (case scopeWalk parents 0 None of
        None \<Rightarrow> Inl AssertionFailure
      | Some scope \<Rightarrow> Inr scope)"

section \<open>Operations and the builder\<close>

datatype AffineExpr =
    AffineDimExpr nat
  | AffineConstantExpr i64
  | AffineAdd AffineExpr AffineExpr
  | AffineSub AffineExpr AffineExpr

record AffineMap =
  numDims :: nat
  results :: "AffineExpr list"

datatype CmpIPredicate = sle

text \<open>An \<^verbatim>\<open>OpFoldResult\<close>: an index attribute or a value.\<close>

datatype 'v OpFoldResult = Attr i64 | Val 'v

text \<open>
  The two transfer operations, each with the operand only it has: the padding of a
  \<^verbatim>\<open>vector.transfer_read\<close>, the vector of a \<^verbatim>\<open>vector.transfer_write\<close>. The third
  case is any other operation that implements \<^verbatim>\<open>VectorTransferOpInterface\<close>.
\<close>

datatype 'v TransferKind = TransferReadOp 'v | TransferWriteOp 'v | OtherTransferOp

text \<open>
  The types and attributes of a transfer operation: the type of its source, its
  vector type (shape and element type), its permutation map and its optional
  \<^verbatim>\<open>in_bounds\<close> array. The source is a memref: the function casts the type of
  the source to \<^verbatim>\<open>MemRefType\<close>, and a transfer on a tensor does not get past
  that cast.
\<close>

record TransferAttrs =
  shapedType :: MemRefType
  vectorShape :: "i64 list"
  vectorElementType :: ElementType
  permutation_map :: AffineMap
  in_bounds :: "bool list option"

text \<open>
  An operation is a term over its operands, and stands for its own result where it is
  an operand; \<open>Arg\<close> is a value the rewrite did not create, \<open>OpResult\<close> the \<open>i\<close>-th
  result of an operation with several. An \<open>IfOp\<close> holds the operations of its two
  regions in order (an absent else region is empty). A \<^verbatim>\<open>memref.dim\<close> built from a static
  position is one \<open>DimOp\<close>.
\<close>

datatype op =
    Arg nat
  | ConstantIndexOp i64
  | ConstantIntOp i64 nat
  | AffineApplyOp AffineMap "op list"
  | AffineMinOp AffineMap "op list"
  | DimOp op nat
  | CmpIOp CmpIPredicate op op
  | AndIOp op op
  | XOrIOp op op
  | AllocaOp MemRefType i64
  | CastOp MemRefType op
  | TypeCastOp MemRefType op
  | SubViewOp op "op OpFoldResult list" "op OpFoldResult list" "op OpFoldResult list"
  | FillOp op op
  | CopyOp op op
  | StoreOp op op
  | LoadOp op
  | TransferOp TransferAttrs "op TransferKind" op "op list" "op option"
  | IfOp op "op list" "op list"
  | OpResult op nat
  | YieldOp "op list"

text \<open>
  A transfer operation seen through \<^verbatim>\<open>VectorTransferOpInterface\<close>: its attributes, its
  kind, and the operands \<open>source\<close>, \<open>indices\<close> and the optional mask.
\<close>

record VectorTransferOp =
  attrs :: TransferAttrs
  kind :: "op TransferKind"
  source :: op
  indices :: "op list"
  getMask :: "op option"

definition asOperation :: "VectorTransferOp \<Rightarrow> op" where
  "asOperation x = TransferOp (attrs x) (kind x) (source x) (indices x) (getMask x)"

text \<open>
  The builder at one insertion point: the operations created there so far, in order.
  \<open>create\<close> is \<^verbatim>\<open>b.create<Op>(...)\<close>.
\<close>

type_synonym Builder = "op list"

definition create :: "op \<Rightarrow> Builder \<Rightarrow> op \<times> Builder" where
  "create operation b = (operation, b @ [operation])"

subsection \<open>The interface methods the file calls\<close>

text \<open>
  Modelled from the spec: the methods of \<^verbatim>\<open>VectorTransferOpInterface\<close> and of
  \<^verbatim>\<open>AffineMap\<close> are declared outside the file. The spec gives the trailing-identity
  mapping (vector dimension \<open>i\<close> maps to region dimension
  \<open>rank(region) - rank(vector) + i\<close>) and the in-bounds flag per dimension; an absent
  flag array flags no dimension. Under a minor identity map no dimension is a
  broadcast, so the flag alone decides \<open>isDimInBounds\<close>.
\<close>

definition getTransferRank :: "VectorTransferOp \<Rightarrow> nat" where
  "getTransferRank x = length (results (permutation_map (attrs x)))"

definition getLeadingShapedRank :: "VectorTransferOp \<Rightarrow> nat" where
  "getLeadingShapedRank x = getRank (shapedType (attrs x)) - getTransferRank x"

definition isMinorIdentity :: "AffineMap \<Rightarrow> bool" where
  "isMinorIdentity m =
     (length (results m) \<le> numDims m \<and>
      results m = map AffineDimExpr [numDims m - length (results m)..<numDims m])"

definition isDimInBounds :: "VectorTransferOp \<Rightarrow> nat \<Rightarrow> bool" where
  "isDimInBounds x dim =
     (case in_bounds (attrs x) of None \<Rightarrow> False | Some flags \<Rightarrow> flags ! dim)"

definition hasOutOfBoundsDim :: "VectorTransferOp \<Rightarrow> bool" where
  "hasOutOfBoundsDim x = list_ex (\<lambda>idx. \<not> isDimInBounds x idx) [0..<getTransferRank x]"

definition zipResultAndIndexing ::
  "VectorTransferOp \<Rightarrow> (nat \<Rightarrow> nat \<Rightarrow> 's \<Rightarrow> 's) \<Rightarrow> 's \<Rightarrow> 's" where
  "zipResultAndIndexing x f s =
     fold (\<lambda>resultIdx. f resultIdx (getLeadingShapedRank x + resultIdx))
       [0..<getTransferRank x] s"

definition setInBounds :: "VectorTransferOp \<Rightarrow> bool list \<Rightarrow> VectorTransferOp" where
  "setInBounds x flags = x\<lparr>attrs := (attrs x)\<lparr>in_bounds := Some flags\<rparr>\<rparr>"

text \<open>
  What the verifier of a transfer operation guarantees: one index per dimension of the
  source, a permutation map from those dimensions to the vector's, and one flag per
  vector dimension when the flag array is present.
\<close>

definition verified :: "VectorTransferOp \<Rightarrow> bool" where
  "verified x =
     (length (indices x) = getRank (shapedType (attrs x)) \<and>
      numDims (permutation_map (attrs x)) = getRank (shapedType (attrs x)) \<and>
      length (vectorShape (attrs x)) = getTransferRank x \<and>
      (case in_bounds (attrs x) of None \<Rightarrow> True
       | Some flags \<Rightarrow> length flags = getTransferRank x))"

subsection \<open>Folding helpers\<close>

text \<open>
  Modelled from the spec: \<^verbatim>\<open>makeComposedFoldedAffineApply\<close>,
  \<^verbatim>\<open>memref::getMixedSize\<close>, \<^verbatim>\<open>getConstantIntValue\<close> and
  \<^verbatim>\<open>getValueOrCreateConstantIndexOp\<close> are library functions. The spec: the sum is
  index arithmetic that folds to a constant when both operands are constant, and the
  region's extent is a constant if statically known. A value is a constant when a
  constant operation defines it.
\<close>

fun evalAffineExpr :: "AffineExpr \<Rightarrow> i64 list \<Rightarrow> i64" where
  "evalAffineExpr (AffineDimExpr n) ds = ds ! n"
| "evalAffineExpr (AffineConstantExpr c) ds = c"
| "evalAffineExpr (AffineAdd e f) ds = evalAffineExpr e ds + evalAffineExpr f ds"
| "evalAffineExpr (AffineSub e f) ds = evalAffineExpr e ds - evalAffineExpr f ds"

fun constantOf :: "op \<Rightarrow> i64 option" where
  "constantOf (ConstantIndexOp k) = Some k"
| "constantOf _ = None"

text \<open>The number of dimensions an expression needs: one more than the largest it uses.\<close>

fun dimCount :: "AffineExpr \<Rightarrow> nat" where
  "dimCount (AffineDimExpr n) = Suc n"
| "dimCount (AffineConstantExpr c) = 0"
| "dimCount (AffineAdd e f) = max (dimCount e) (dimCount f)"
| "dimCount (AffineSub e f) = max (dimCount e) (dimCount f)"

definition inferFromExprList :: "AffineExpr list \<Rightarrow> AffineMap" where
  "inferFromExprList exprs = \<lparr>numDims = fold max (map dimCount exprs) 0, results = exprs\<rparr>"

definition makeComposedFoldedAffineApply ::
  "Builder \<Rightarrow> AffineExpr \<Rightarrow> op list \<Rightarrow> op OpFoldResult \<times> Builder" where
  "makeComposedFoldedAffineApply b expr operands =
     (case those (map constantOf operands) of
        Some ks \<Rightarrow> (Attr (evalAffineExpr expr ks), b)
      | None \<Rightarrow>
          (let (v, b') = create (AffineApplyOp (inferFromExprList [expr]) operands) b
           in (Val v, b')))"

definition getMixedSize ::
  "i64 \<Rightarrow> Builder \<Rightarrow> op \<Rightarrow> MemRefType \<Rightarrow> nat \<Rightarrow> op OpFoldResult \<times> Builder" where
  "getMixedSize dyn b v memrefType dim =
     (if shape memrefType ! dim = dyn
      then (let (d, b') = create (DimOp v dim) b in (Val d, b'))
      else (Attr (shape memrefType ! dim), b))"

definition getConstantIntValue :: "op OpFoldResult \<Rightarrow> i64 option" where
  "getConstantIntValue ofr = (case ofr of Attr k \<Rightarrow> Some k | Val v \<Rightarrow> constantOf v)"

definition getValueOrCreateConstantIndexOp ::
  "Builder \<Rightarrow> op OpFoldResult \<Rightarrow> op \<times> Builder" where
  "getValueOrCreateConstantIndexOp b ofr =
     (case ofr of Val v \<Rightarrow> (v, b) | Attr k \<Rightarrow> create (ConstantIndexOp k) b)"

section \<open>createInBoundsCond\<close>

text \<open>
  The body of the lambda handed to \<open>zipResultAndIndexing\<close>; its state is
  \<open>inBoundsCond\<close> (\<open>None\<close> is the null value) and the builder. The two operands of
  the comparison are materialised left to right.
\<close>

definition inBoundsCondStep ::
  "i64 \<Rightarrow> VectorTransferOp \<Rightarrow> nat \<Rightarrow> nat \<Rightarrow> op option \<times> Builder \<Rightarrow> op option \<times> Builder" where
  "inBoundsCondStep dyn xferOp resultIdx indicesIdx st =
     (case st of (inBoundsCond, b) \<Rightarrow>
      if isDimInBounds xferOp resultIdx then (inBoundsCond, b)
      else
        let vectorSize = vectorShape (attrs xferOp) ! resultIdx;
            (sum, b1) = makeComposedFoldedAffineApply b
               (AffineAdd (AffineDimExpr 0) (AffineConstantExpr vectorSize))
               [indices xferOp ! indicesIdx];
            (dimSz, b2) = getMixedSize dyn b1 (source xferOp) (shapedType (attrs xferOp)) indicesIdx;
            maybeCstSum = getConstantIntValue sum;
            maybeCstDimSz = getConstantIntValue dimSz
        in if (case (maybeCstSum, maybeCstDimSz) of
                 (Some cstSum, Some cstDimSz) \<Rightarrow> word_sle cstSum cstDimSz
               | _ \<Rightarrow> False)
           then (inBoundsCond, b2)
           else
             let (lhs, b3) = getValueOrCreateConstantIndexOp b2 sum;
                 (rhs, b4) = getValueOrCreateConstantIndexOp b3 dimSz;
                 (cond, b5) = create (CmpIOp sle lhs rhs) b4
             in case inBoundsCond of
                  Some c \<Rightarrow> (let (conj, b6) = create (AndIOp c cond) b5 in (Some conj, b6))
                | None \<Rightarrow> (Some cond, b5))"

definition createInBoundsCond ::
  "i64 \<Rightarrow> Builder \<Rightarrow> VectorTransferOp \<Rightarrow> error + (op option \<times> Builder)" where
  "createInBoundsCond dyn b xferOp =
     (if \<not> isMinorIdentity (permutation_map (attrs xferOp)) then Inl AssertionFailure
      else Inr (zipResultAndIndexing xferOp (inBoundsCondStep dyn xferOp) (None, b)))"

section \<open>createSubViewIntersection\<close>

text \<open>The type of a value, where the operation that defines it states one.\<close>

fun getType :: "op \<Rightarrow> MemRefType option" where
  "getType (AllocaOp t a) = Some t"
| "getType (CastOp t v) = Some t"
| "getType (TypeCastOp t v) = Some t"
| "getType _ = None"

definition isaWrite :: "VectorTransferOp \<Rightarrow> bool" where
  "isaWrite x = (case kind x of TransferWriteOp v \<Rightarrow> True | _ \<Rightarrow> False)"

text \<open>The lambda of \<open>createSubViewIntersection\<close>: its state is \<open>sizes\<close> and the builder.\<close>

definition intersectionStep ::
  "VectorTransferOp \<Rightarrow> op \<Rightarrow> nat \<Rightarrow> nat \<Rightarrow> op OpFoldResult list \<times> Builder \<Rightarrow>
   op OpFoldResult list \<times> Builder" where
  "intersectionStep xferOp alloc resultIdx indicesIdx st =
     (case st of (sizes, b) \<Rightarrow>
      let (dimMemRef, b1) = create (DimOp (source xferOp) indicesIdx) b;
          (dimAlloc, b2) = create (DimOp alloc resultIdx) b1;
          index = indices xferOp ! indicesIdx;
          i = AffineDimExpr 0; j = AffineDimExpr 1; k = AffineDimExpr 2;
          maps = [inferFromExprList [AffineSub i j, k]];
          (affineMin, b3) = create (AffineMinOp (maps ! 0) [dimMemRef, index, dimAlloc]) b2
      in (sizes @ [Val affineMin], b3))"

definition createSubViewIntersection ::
  "Builder \<Rightarrow> VectorTransferOp \<Rightarrow> op \<Rightarrow> error + ((op \<times> op) \<times> Builder)" where
  "createSubViewIntersection b xferOp alloc =
     (let memrefRank = getRank (shapedType (attrs xferOp)) in
      case getType alloc of
        None \<Rightarrow> Inl AssertionFailure
      | Some allocType \<Rightarrow>
          if memrefRank \<noteq> getRank allocType then Inl AssertionFailure
          else
            let leadingIndices = take (getLeadingShapedRank xferOp) (indices xferOp);
                (sizes, b1) = zipResultAndIndexing xferOp (intersectionStep xferOp alloc)
                                (map Val leadingIndices, b);
                srcIndices = map Val (indices xferOp);
                destIndices = replicate memrefRank (Attr 0);
                strides = replicate memrefRank (Attr 1);
                (copySrc, b2) = create (SubViewOp (if isaWrite xferOp then alloc else source xferOp)
                                          srcIndices sizes strides) b1;
                (copyDest, b3) = create (SubViewOp (if isaWrite xferOp then source xferOp else alloc)
                                           destIndices sizes strides) b2
            in Inr ((copySrc, copyDest), b3))"

section \<open>The conditionals\<close>

text \<open>
  The then region all three builders of the first conditional share: cast the source
  to the compatible type unless it has it already, and yield it with the indices.
\<close>

definition fastPathRegion :: "VectorTransferOp \<Rightarrow> MemRefType \<Rightarrow> Builder" where
  "fastPathRegion xferOp compatibleMemRefType =
     (let memref = source xferOp;
          (res, b) = (if compatibleMemRefType \<noteq> shapedType (attrs xferOp)
                      then create (CastOp compatibleMemRefType memref) []
                      else (memref, []));
          viewAndIndices = res # indices xferOp
      in snd (create (YieldOp viewAndIndices) b))"

text \<open>\<open>createFullPartialLinalgCopy\<close> for a \<^verbatim>\<open>vector::TransferReadOp\<close> with padding \<open>pad\<close>.\<close>

definition createFullPartialLinalgCopyRead ::
  "Builder \<Rightarrow> VectorTransferOp \<Rightarrow> op \<Rightarrow> op \<Rightarrow> MemRefType \<Rightarrow> op \<Rightarrow> error + (op \<times> Builder)" where
  "createFullPartialLinalgCopyRead b xferOp pad inBoundsCond compatibleMemRefType alloc =
     (let (zero, b1) = create (ConstantIndexOp 0) b;
          thenRegion = fastPathRegion xferOp compatibleMemRefType;
          (fill, e1) = create (FillOp pad alloc) []
      in bind (createSubViewIntersection e1 xferOp alloc) (\<lambda>(copyArgs, e2).
           let (copy, e3) = create (CopyOp (fst copyArgs) (snd copyArgs)) e2;
               (casted, e4) = create (CastOp compatibleMemRefType alloc) e3;
               viewAndIndices = casted # replicate (getTransferRank xferOp) zero;
               elseRegion = snd (create (YieldOp viewAndIndices) e4)
           in Inr (create (IfOp inBoundsCond thenRegion elseRegion) b1)))"

text \<open>The type \<^verbatim>\<open>MemRefType::get({}, vectorType)\<close>: one cell holding a whole vector.\<close>

definition vectorCellType :: "VectorTransferOp \<Rightarrow> MemRefType" where
  "vectorCellType xferOp =
     \<lparr>shape = [],
      elementType = VectorType (vectorShape (attrs xferOp)) (vectorElementType (attrs xferOp)),
      layout = IdentityLayout\<rparr>"

definition createFullPartialVectorTransferRead ::
  "Builder \<Rightarrow> VectorTransferOp \<Rightarrow> op \<Rightarrow> MemRefType \<Rightarrow> op \<Rightarrow> op \<times> Builder" where
  "createFullPartialVectorTransferRead b xferOp inBoundsCond compatibleMemRefType alloc =
     (let (zero, b1) = create (ConstantIndexOp 0) b;
          thenRegion = fastPathRegion xferOp compatibleMemRefType;
          (newXfer, e1) = create (asOperation xferOp) [];
          vector = newXfer;
          (typeCast, e2) = create (TypeCastOp (vectorCellType xferOp) alloc) e1;
          (store, e3) = create (StoreOp vector typeCast) e2;
          (casted, e4) = create (CastOp compatibleMemRefType alloc) e3;
          viewAndIndices = casted # replicate (getTransferRank xferOp) zero;
          elseRegion = snd (create (YieldOp viewAndIndices) e4)
      in create (IfOp inBoundsCond thenRegion elseRegion) b1)"

text \<open>
  Modelled from the spec: the builder of \<^verbatim>\<open>scf::IfOp\<close> is library code. The spec has
  the conditional yield a (descriptor, indices) tuple: a conditional built from region
  builders has as many results as its then region yields.
\<close>

fun getResults :: "op \<Rightarrow> op list" where
  "getResults (IfOp c thenRegion elseRegion) =
     (case (if thenRegion = [] then YieldOp [] else last thenRegion) of
        YieldOp vs \<Rightarrow> map (OpResult (IfOp c thenRegion elseRegion)) [0..<length vs]
      | _ \<Rightarrow> [])"
| "getResults _ = []"

definition getLocationToWriteFullVec ::
  "Builder \<Rightarrow> VectorTransferOp \<Rightarrow> op \<Rightarrow> MemRefType \<Rightarrow> op \<Rightarrow> op list \<times> Builder" where
  "getLocationToWriteFullVec b xferOp inBoundsCond compatibleMemRefType alloc =
     (let (zero, b1) = create (ConstantIndexOp 0) b;
          thenRegion = fastPathRegion xferOp compatibleMemRefType;
          (casted, e1) = create (CastOp compatibleMemRefType alloc) [];
          viewAndIndices = casted # replicate (getTransferRank xferOp) zero;
          elseRegion = snd (create (YieldOp viewAndIndices) e1);
          (ifOp, b2) = create (IfOp inBoundsCond thenRegion elseRegion) b1
      in (getResults ifOp, b2))"

text \<open>\<open>createFullPartialLinalgCopy\<close> for a \<^verbatim>\<open>vector::TransferWriteOp\<close>.\<close>

definition createFullPartialLinalgCopyWrite ::
  "Builder \<Rightarrow> VectorTransferOp \<Rightarrow> op \<Rightarrow> op \<Rightarrow> error + Builder" where
  "createFullPartialLinalgCopyWrite b xferOp inBoundsCond alloc =
     (let (true, b1) = create (ConstantIntOp 1 1) b;
          (notInBounds, b2) = create (XOrIOp inBoundsCond true) b1
      in bind (createSubViewIntersection [] xferOp alloc) (\<lambda>(copyArgs, e1).
           let (copy, e2) = create (CopyOp (fst copyArgs) (snd copyArgs)) e1;
               thenRegion = snd (create (YieldOp []) e2)
           in Inr (snd (create (IfOp notInBounds thenRegion []) b2))))"

text \<open>
  Modelled from the spec: \<^verbatim>\<open>IRMapping\<close> and \<^verbatim>\<open>b.clone(op, mapping)\<close> are library
  code. The spec has cloning remap operands through a mapping table: the clone has
  every operand replaced by what the mapping gives for it, and keeps the operands the
  mapping does not know; a later entry for a value replaces an earlier one.
\<close>

type_synonym IRMapping = "op \<rightharpoonup> op"

definition mapValue :: "op \<Rightarrow> op \<Rightarrow> IRMapping \<Rightarrow> IRMapping" where
  "mapValue from to mapping = mapping(from \<mapsto> to)"

definition mapRange :: "op list \<Rightarrow> op list \<Rightarrow> IRMapping \<Rightarrow> IRMapping" where
  "mapRange from to mapping = fold (\<lambda>(f, t). mapValue f t) (zip from to) mapping"

definition lookupOrDefault :: "IRMapping \<Rightarrow> op \<Rightarrow> op" where
  "lookupOrDefault mapping v = (case mapping v of None \<Rightarrow> v | Some w \<Rightarrow> w)"

definition clone :: "VectorTransferOp \<Rightarrow> IRMapping \<Rightarrow> VectorTransferOp" where
  "clone x mapping =
     x\<lparr>kind := map_TransferKind (lookupOrDefault mapping) (kind x),
       source := lookupOrDefault mapping (source x),
       indices := map (lookupOrDefault mapping) (indices x),
       getMask := map_option (lookupOrDefault mapping) (getMask x)\<rparr>"

definition createFullPartialVectorTransferWrite ::
  "Builder \<Rightarrow> VectorTransferOp \<Rightarrow> op \<Rightarrow> op \<Rightarrow> op \<Rightarrow> Builder" where
  "createFullPartialVectorTransferWrite b xferOp vector inBoundsCond alloc =
     (let (true, b1) = create (ConstantIntOp 1 1) b;
          (notInBounds, b2) = create (XOrIOp inBoundsCond true) b1;
          (typeCast, e1) = create (TypeCastOp (vectorCellType xferOp) alloc) [];
          (load, e2) = create (LoadOp typeCast) e1;
          mapping = mapValue vector load Map.empty;
          (cloned, e3) = create (asOperation (clone xferOp mapping)) e2;
          thenRegion = snd (create (YieldOp []) e3)
      in snd (create (IfOp notInBounds thenRegion []) b2))"

section \<open>splitFullAndPartialTransfer\<close>

definition splitFullAndPartialTransferPrecondition ::
  "Ancestor list \<Rightarrow> VectorTransferOp \<Rightarrow> error + LogicalResult" where
  "splitFullAndPartialTransferPrecondition parents xferOp =
     (if getTransferRank xferOp = 0 then Inr failure
      else if \<not> isMinorIdentity (permutation_map (attrs xferOp)) then Inr failure
      else if \<not> hasOutOfBoundsDim xferOp then Inr failure
      else case parents of
             [] \<Rightarrow> Inl AssertionFailure
           | parent # rest \<Rightarrow> if opName parent = ScfIfOp then Inr failure else Inr success)"

text \<open>
  What a call did to the IR: the operations it created at the insertion point before
  the transfer operation, those it created at the start of the first block of an
  ancestor (given by its position in the chain), the root operation as it is afterwards,
  and whether the root was erased.
\<close>

record 'r IRChange =
  created :: "op list"
  createdInScope :: "(nat \<times> op) list"
  root :: 'r
  erased :: bool

definition unchanged :: "'r \<Rightarrow> 'r IRChange" where
  "unchanged r = \<lparr>created = [], createdInScope = [], root = r, erased = False\<rparr>"

text \<open>
  \<^verbatim>\<open>setOperand\<close> of a \<^verbatim>\<open>vector.transfer_read\<close>, whose operands are the source, the
  indices, the padding and the optional mask, in this order.
\<close>

definition setOperand :: "VectorTransferOp \<Rightarrow> nat \<Rightarrow> op \<Rightarrow> VectorTransferOp" where
  "setOperand x i v =
     (if i = 0 then x\<lparr>source := v\<rparr>
      else if i \<le> length (indices x) then x\<lparr>indices := (indices x)[i - 1 := v]\<rparr>
      else if i = Suc (length (indices x)) then x\<lparr>kind := TransferReadOp v\<rparr>
      else x\<lparr>getMask := map_option (\<lambda>m. v) (getMask x)\<rparr>)"

text \<open>
  The out-parameter \<^verbatim>\<open>scf::IfOp *ifOp\<close>: \<open>None\<close> is the null pointer, \<open>Some h\<close> a
  pointer to a handle \<open>h\<close>, itself null (\<open>None\<close>) or a conditional.
\<close>

type_synonym IfOpPtr = "op option option"

definition storeIfOp :: "IfOpPtr \<Rightarrow> op \<Rightarrow> IfOpPtr" where
  "storeIfOp ifOp v = (case ifOp of None \<Rightarrow> None | Some h \<Rightarrow> Some (Some v))"

definition allocType :: "VectorTransferOp \<Rightarrow> MemRefType" where
  "allocType xferOp =
     \<lparr>shape = vectorShape (attrs xferOp), elementType = vectorElementType (attrs xferOp),
      layout = IdentityLayout\<rparr>"

text \<open>The part of \<open>splitFullAndPartialTransfer\<close> for a read, from the conditional on.\<close>

definition splitRead ::
  "VectorTransferSplit \<Rightarrow> VectorTransferOp \<Rightarrow> op \<Rightarrow> IfOpPtr \<Rightarrow> Builder \<Rightarrow> op \<Rightarrow>
   nat \<Rightarrow> op \<Rightarrow> MemRefType \<Rightarrow> bool list \<Rightarrow>
   error + (LogicalResult \<times> VectorTransferOp IRChange \<times> IfOpPtr)" where
  "splitRead options xferOp pad ifOp b inBoundsCond scope alloc compatibleMemRefType inBoundsAttr =
     (let returnTypeCount = 1 + getTransferRank xferOp in
      bind (if options = VectorTransfer
            then Inr (createFullPartialVectorTransferRead b xferOp inBoundsCond
                        compatibleMemRefType alloc)
            else createFullPartialLinalgCopyRead b xferOp pad inBoundsCond
                   compatibleMemRefType alloc)
        (\<lambda>(fullPartialIfOp, b1).
           let ifOp' = storeIfOp ifOp fullPartialIfOp;
               xferReadOp = fold (\<lambda>i x. setOperand x i (OpResult fullPartialIfOp i))
                              [0..<returnTypeCount] xferOp
           in Inr (success,
                   \<lparr>created = b1, createdInScope = [(scope, alloc)],
                    root = setInBounds xferReadOp inBoundsAttr, erased = False\<rparr>,
                   ifOp')))"

text \<open>
  The part for a write with vector operand \<open>vector\<close>. The clone is created with the
  mapped source and indices; its \<^verbatim>\<open>in_bounds\<close> attribute is set right after.
\<close>

definition splitWrite ::
  "VectorTransferSplit \<Rightarrow> VectorTransferOp \<Rightarrow> op \<Rightarrow> IfOpPtr \<Rightarrow> Builder \<Rightarrow> op \<Rightarrow>
   nat \<Rightarrow> op \<Rightarrow> MemRefType \<Rightarrow> bool list \<Rightarrow>
   error + (LogicalResult \<times> VectorTransferOp IRChange \<times> IfOpPtr)" where
  "splitWrite options xferOp vector ifOp b inBoundsCond scope alloc compatibleMemRefType inBoundsAttr =
     (let (memrefAndIndices, b1) =
            getLocationToWriteFullVec b xferOp inBoundsCond compatibleMemRefType alloc;
          mapping = mapRange (indices xferOp) (tl memrefAndIndices)
                      (mapValue (source xferOp) (hd memrefAndIndices) Map.empty);
          (cloned, b2) = create (asOperation (setInBounds (clone xferOp mapping) inBoundsAttr)) b1
      in bind (if options = VectorTransfer
               then Inr (createFullPartialVectorTransferWrite b2 xferOp vector inBoundsCond alloc)
               else createFullPartialLinalgCopyWrite b2 xferOp inBoundsCond alloc)
           (\<lambda>b3. Inr (success,
                       \<lparr>created = b3, createdInScope = [(scope, alloc)],
                        root = xferOp, erased = True\<rparr>,
                       ifOp)))"

definition splitFullAndPartialTransfer ::
  "Externals \<Rightarrow> Ancestor list \<Rightarrow> VectorTransferOp \<Rightarrow> VectorTransferSplit \<Rightarrow> IfOpPtr \<Rightarrow>
   error + (LogicalResult \<times> VectorTransferOp IRChange \<times> IfOpPtr)" where
  "splitFullAndPartialTransfer ext parents xferOp options ifOp =
     (if options = SplitNone then Inr (failure, unchanged xferOp, ifOp)
      else
        let inBoundsAttr = replicate (getTransferRank xferOp) True in
        if options = ForceInBounds
        then Inr (success, (unchanged xferOp)\<lparr>root := setInBounds xferOp inBoundsAttr\<rparr>, ifOp)
        else if splitFullAndPartialTransferPrecondition parents xferOp \<noteq> Inr success
        then Inl AssertionFailure
        else if kind xferOp = OtherTransferOp then Inr (failure, unchanged xferOp, ifOp)
        else if getMask xferOp \<noteq> None then Inr (failure, unchanged xferOp, ifOp)
        else
          bind (createInBoundsCond (kDynamic ext) [] xferOp) (\<lambda>(maybeCond, b).
            case maybeCond of
              None \<Rightarrow> Inr (failure, (unchanged xferOp)\<lparr>created := b\<rparr>, ifOp)
            | Some inBoundsCond \<Rightarrow>
                bind (getAutomaticAllocationScope parents) (\<lambda>scope.
                  if numRegions (parents ! scope) \<noteq> 1 then Inl AssertionFailure
                  else
                    let alloc = AllocaOp (allocType xferOp) 32 in
                    bind (getCastCompatibleMemRefType ext (shapedType (attrs xferOp))
                            (allocType xferOp))
                      (\<lambda>maybeType.
                         case maybeType of
                           None \<Rightarrow>
                             Inr (failure,
                                  \<lparr>created = b, createdInScope = [(scope, alloc)],
                                   root = xferOp, erased = False\<rparr>,
                                  ifOp)
                         | Some compatibleMemRefType \<Rightarrow>
                             (case kind xferOp of
                                TransferReadOp pad \<Rightarrow>
                                  splitRead options xferOp pad ifOp b inBoundsCond scope alloc
                                    compatibleMemRefType inBoundsAttr
                              | TransferWriteOp vector \<Rightarrow>
                                  splitWrite options xferOp vector ifOp b inBoundsCond scope alloc
                                    compatibleMemRefType inBoundsAttr
                              | OtherTransferOp \<Rightarrow> Inl AssertionFailure)))))"

section \<open>The rewrite pattern\<close>

text \<open>
  An operation handed to the pattern: one that implements
  \<^verbatim>\<open>VectorTransferOpInterface\<close>, or any other.
\<close>

datatype Operation = TransferOperation VectorTransferOp | OtherOperation nat

definition asRootChange :: "VectorTransferOp IRChange \<Rightarrow> Operation IRChange" where
  "asRootChange c =
     \<lparr>created = created c, createdInScope = createdInScope c,
      root = TransferOperation (root c), erased = erased c\<rparr>"

definition matchAndRewrite ::
  "Externals \<Rightarrow> VectorTransferSplit \<Rightarrow> (VectorTransferOp \<Rightarrow> LogicalResult) \<Rightarrow>
   Ancestor list \<Rightarrow> Operation \<Rightarrow> error + (LogicalResult \<times> Operation IRChange)" where
  "matchAndRewrite ext options filterFn parents operation =
     (case operation of
        OtherOperation n \<Rightarrow> Inr (failure, unchanged operation)
      | TransferOperation xferOp \<Rightarrow>
          bind (splitFullAndPartialTransferPrecondition parents xferOp) (\<lambda>pre.
            if pre = failure \<or> filterFn xferOp = failure then Inr (failure, unchanged operation)
            else bind (splitFullAndPartialTransfer ext parents xferOp options None)
                   (\<lambda>(r, c, p). Inr (r, asRootChange c))))"

section \<open>The meaning of the emitted index arithmetic\<close>

text \<open>
  Modelled from the spec: the operations the condition and the overlap sizes are built
  from are index arithmetic (add, min, comparison, conjunction, negation) of the
  representation layer. A run gives every value the rewrite did not create its
  number, and every memory region its extents.
\<close>

record Run =
  argValue :: "nat \<Rightarrow> i64"
  extent :: "op \<Rightarrow> nat \<Rightarrow> i64"

definition smin :: "i64 \<Rightarrow> i64 \<Rightarrow> i64" where
  "smin a b = (if word_sle a b then a else b)"

fun evalIndex :: "Run \<Rightarrow> op \<Rightarrow> i64" where
  "evalIndex run (Arg n) = argValue run n"
| "evalIndex run (ConstantIndexOp k) = k"
| "evalIndex run (AffineApplyOp m operands) =
     evalAffineExpr (hd (results m)) (map (evalIndex run) operands)"
| "evalIndex run (AffineMinOp m operands) =
     (let ds = map (evalIndex run) operands;
          rs = map (\<lambda>e. evalAffineExpr e ds) (results m)
      in fold (\<lambda>v acc. smin acc v) (tl rs) (hd rs))"
| "evalIndex run (DimOp v dim) = extent run v dim"
| "evalIndex run _ = 0"

fun evalCond :: "Run \<Rightarrow> op \<Rightarrow> bool" where
  "evalCond run (CmpIOp sle a b) = word_sle (evalIndex run a) (evalIndex run b)"
| "evalCond run (AndIOp a b) = (evalCond run a \<and> evalCond run b)"
| "evalCond run (XOrIOp a b) = (evalCond run a \<noteq> evalCond run b)"
| "evalCond run (ConstantIntOp k w) = (k \<noteq> 0)"
| "evalCond run _ = False"

section \<open>What the claims speak of\<close>

text \<open>
  A vector dimension folds away when its index is a constant, the region's extent
  there is static, and the constant sum is at most the extent.
\<close>

definition foldsAway :: "i64 \<Rightarrow> VectorTransferOp \<Rightarrow> nat \<Rightarrow> bool" where
  "foldsAway dyn x resultIdx =
     (let indicesIdx = getLeadingShapedRank x + resultIdx;
          dimSz = shape (shapedType (attrs x)) ! indicesIdx
      in case constantOf (indices x ! indicesIdx) of
           None \<Rightarrow> False
         | Some k \<Rightarrow> dimSz \<noteq> dyn \<and> word_sle (k + vectorShape (attrs x) ! resultIdx) dimSz)"

text \<open>The dimensions that get a runtime check, in order.\<close>

definition checkedDims :: "i64 \<Rightarrow> VectorTransferOp \<Rightarrow> nat list" where
  "checkedDims dyn x =
     filter (\<lambda>r. \<not> isDimInBounds x r \<and> \<not> foldsAway dyn x r) [0..<getTransferRank x]"

text \<open>
  The comparison \<open>index + vector extent \<le> region extent\<close> of one dimension, on the
  values that hold the sum and the extent.
\<close>

definition boundsCheck :: "i64 \<Rightarrow> VectorTransferOp \<Rightarrow> nat \<Rightarrow> op" where
  "boundsCheck dyn x resultIdx =
     (let indicesIdx = getLeadingShapedRank x + resultIdx;
          index = indices x ! indicesIdx;
          vectorSize = vectorShape (attrs x) ! resultIdx;
          dimSz = shape (shapedType (attrs x)) ! indicesIdx
      in CmpIOp sle
           (case constantOf index of
              Some k \<Rightarrow> ConstantIndexOp (k + vectorSize)
            | None \<Rightarrow> AffineApplyOp
                (inferFromExprList [AffineAdd (AffineDimExpr 0) (AffineConstantExpr vectorSize)])
                [index])
           (if dimSz = dyn then DimOp (source x) indicesIdx else ConstantIndexOp dimSz))"

text \<open>The comparisons among a list of operations.\<close>

fun isCmpIOp :: "op \<Rightarrow> bool" where
  "isCmpIOp (CmpIOp pr a b) = True"
| "isCmpIOp _ = False"

text \<open>The conjunction of a list of conditions, built left to right; none for no condition.\<close>

definition andAll :: "op \<Rightarrow> op list \<Rightarrow> op" where
  "andAll c cs = fold (\<lambda>d acc. AndIOp acc d) cs c"

definition conjunction :: "op list \<Rightarrow> op option" where
  "conjunction cs = (case cs of [] \<Rightarrow> None | c # rest \<Rightarrow> Some (andAll c rest))"

text \<open>A run agrees with the static extents of the source of a transfer.\<close>

definition agreesWithShape :: "i64 \<Rightarrow> Run \<Rightarrow> VectorTransferOp \<Rightarrow> bool" where
  "agreesWithShape dyn run x =
     list_all (\<lambda>i. shape (shapedType (attrs x)) ! i = dyn \<or>
                    extent run (source x) i = shape (shapedType (attrs x)) ! i)
       [0..<getRank (shapedType (attrs x))]"

text \<open>
  The clones of a transfer operation among a list of operations: at the top level, and
  inside the regions of the conditionals of that list.
\<close>

fun isTransferOp :: "op \<Rightarrow> bool" where
  "isTransferOp (TransferOp a k s i m) = True"
| "isTransferOp _ = False"

fun regionsOf :: "op \<Rightarrow> op list" where
  "regionsOf (IfOp c thenRegion elseRegion) = thenRegion @ elseRegion"
| "regionsOf _ = []"

definition clonesOutsideConditionals :: "op list \<Rightarrow> nat" where
  "clonesOutsideConditionals ops = length (filter isTransferOp ops)"

definition clonesInConditionals :: "op list \<Rightarrow> nat" where
  "clonesInConditionals ops = length (filter isTransferOp (concat (map regionsOf ops)))"

text \<open>The parts of the outcome of a call; an assertion failure has none.\<close>

definition resultOf :: "error + (LogicalResult \<times> 'c \<times> 'p) \<Rightarrow> LogicalResult option" where
  "resultOf r = (case r of Inl e \<Rightarrow> None | Inr (res, c, p) \<Rightarrow> Some res)"

definition changeOf :: "error + (LogicalResult \<times> 'c \<times> 'p) \<Rightarrow> 'c option" where
  "changeOf r = (case r of Inl e \<Rightarrow> None | Inr (res, c, p) \<Rightarrow> Some c)"

text \<open>
  The check of one dimension in a run: \<open>index + vector extent \<le> region extent\<close>,
  signed, on the numbers of the run.
\<close>

definition withinBounds :: "Run \<Rightarrow> VectorTransferOp \<Rightarrow> nat \<Rightarrow> bool" where
  "withinBounds run x resultIdx =
     (let indicesIdx = getLeadingShapedRank x + resultIdx
      in word_sle (evalIndex run (indices x ! indicesIdx) + vectorShape (attrs x) ! resultIdx)
           (extent run (source x) indicesIdx))"

text \<open>The condition so far, extended by further checks.\<close>

definition extendCond :: "op option \<Rightarrow> op list \<Rightarrow> op option" where
  "extendCond c cs = (case c of None \<Rightarrow> conjunction cs | Some c0 \<Rightarrow> Some (andAll c0 cs))"

text \<open>The shared value where two fields agree, the dynamic sentinel otherwise.\<close>

definition sharedOrDynamic :: "i64 \<Rightarrow> i64 \<Rightarrow> i64 \<Rightarrow> i64" where
  "sharedOrDynamic dyn a b = (if a = b then a else dyn)"

text \<open>
  The ancestors the walk meets: the loops next to the operation, and the first
  ancestor that is not a loop.
\<close>

definition walked :: "Ancestor list \<Rightarrow> Ancestor list" where
  "walked parents = take (Suc (length (takeWhile isLoop parents))) parents"

text \<open>
  The overlap of one vector dimension: the one \<^verbatim>\<open>affine.min\<close> of
  \<open>region extent - index\<close> and \<open>buffer extent\<close>; and the sizes of the two subviews,
  the leading indices followed by the overlaps.
\<close>

definition overlapSize :: "VectorTransferOp \<Rightarrow> op \<Rightarrow> nat \<Rightarrow> op" where
  "overlapSize x alloc resultIdx =
     (let indicesIdx = getLeadingShapedRank x + resultIdx
      in AffineMinOp
           (inferFromExprList [AffineSub (AffineDimExpr 0) (AffineDimExpr 1), AffineDimExpr 2])
           [DimOp (source x) indicesIdx, indices x ! indicesIdx, DimOp alloc resultIdx])"

definition overlapSizes :: "VectorTransferOp \<Rightarrow> op \<Rightarrow> op OpFoldResult list" where
  "overlapSizes x alloc =
     map Val (take (getLeadingShapedRank x) (indices x)) @
     map (\<lambda>r. Val (overlapSize x alloc r)) [0..<getTransferRank x]"

text \<open>An operation that is neither a transfer nor a conditional.\<close>

fun plainOp :: "op \<Rightarrow> bool" where
  "plainOp (TransferOp a k s i m) = False"
| "plainOp (IfOp c t e) = False"
| "plainOp _ = True"

text \<open>
  The operations a split write is made of: the conditional that picks the location of
  the full write, the negated condition, the clone that writes there, and the region of
  the second conditional under the reissue strategy.
\<close>

definition locationIf :: "VectorTransferOp \<Rightarrow> op \<Rightarrow> MemRefType \<Rightarrow> op \<Rightarrow> op" where
  "locationIf x cond t alloc =
     IfOp cond (fastPathRegion x t)
       [CastOp t alloc, YieldOp (CastOp t alloc # replicate (getTransferRank x) (ConstantIndexOp 0))]"

definition notInBounds :: "op \<Rightarrow> op" where
  "notInBounds cond = XOrIOp cond (ConstantIntOp 1 1)"

definition reissueRegion :: "VectorTransferOp \<Rightarrow> op \<Rightarrow> op \<Rightarrow> op list" where
  "reissueRegion x v alloc =
     (let load = LoadOp (TypeCastOp (vectorCellType x) alloc)
      in [TypeCastOp (vectorCellType x) alloc, load,
          asOperation (clone x (mapValue v load Map.empty)), YieldOp []])"

definition firstClone :: "VectorTransferOp \<Rightarrow> op \<Rightarrow> MemRefType \<Rightarrow> op \<Rightarrow> op" where
  "firstClone x cond t alloc =
     (let memrefAndIndices = getResults (locationIf x cond t alloc);
          mapping = mapRange (indices x) (tl memrefAndIndices)
                      (mapValue (source x) (hd memrefAndIndices) Map.empty)
      in asOperation (setInBounds (clone x mapping) (replicate (getTransferRank x) True)))"

text \<open>
  Two more parts of the outcome of a call: the out-parameter afterwards, and the
  operations created before the transfer operation.
\<close>

definition ifOpOf :: "error + (LogicalResult \<times> 'c \<times> 'p) \<Rightarrow> 'p option" where
  "ifOpOf r = (case r of Inl e \<Rightarrow> None | Inr (res, c, p) \<Rightarrow> Some p)"

definition createdOf :: "error + (LogicalResult \<times> 'r IRChange \<times> 'p) \<Rightarrow> op list" where
  "createdOf r = (case r of Inl e \<Rightarrow> [] | Inr (res, c, p) \<Rightarrow> created c)"

section \<open>Sample inputs\<close>

text \<open>
  Modelled from the spec: two descriptors are cast-compatible iff they agree on rank
  and every statically-known field matches or one side is dynamic. A type is strided
  when its layout gives strides and an offset, or is the identity layout, whose strides
  are those of the row-major order. The sentinel of a dynamic extent is taken to be the
  least \<^verbatim>\<open>int64_t\<close>.
\<close>

definition staticAgree :: "i64 \<Rightarrow> i64 \<Rightarrow> i64 \<Rightarrow> bool" where
  "staticAgree dyn a b = (a = b \<or> a = dyn \<or> b = dyn)"

fun rowMajorStrides :: "i64 \<Rightarrow> i64 list \<Rightarrow> i64 list" where
  "rowMajorStrides dyn [] = []"
| "rowMajorStrides dyn [d] = [1]"
| "rowMajorStrides dyn (d # e # rest) =
     (let tailStrides = rowMajorStrides dyn (e # rest)
      in (if e = dyn \<or> hd tailStrides = dyn then dyn else e * hd tailStrides) # tailStrides)"

definition stridesAndOffsetOf :: "i64 \<Rightarrow> MemRefType \<Rightarrow> (i64 list \<times> i64) option" where
  "stridesAndOffsetOf dyn t =
     (case layout t of
        StridedLayoutAttr off strides \<Rightarrow> Some (strides, off)
      | IdentityLayout \<Rightarrow> Some (rowMajorStrides dyn (shape t), 0)
      | OpaqueLayout n \<Rightarrow> None)"

definition castCompatible :: "i64 \<Rightarrow> MemRefType \<Rightarrow> MemRefType \<Rightarrow> bool" where
  "castCompatible dyn aT bT =
     (getRank aT = getRank bT \<and> elementType aT = elementType bT \<and>
      list_all2 (staticAgree dyn) (shape aT) (shape bT) \<and>
      (case (stridesAndOffsetOf dyn aT, stridesAndOffsetOf dyn bT) of
         (Some (aStrides, aOffset), Some (bStrides, bOffset)) \<Rightarrow>
           list_all2 (staticAgree dyn) aStrides bStrides \<and> staticAgree dyn aOffset bOffset
       | _ \<Rightarrow> layout aT = layout bT))"

definition minInt64 :: i64 where
  "minInt64 = 9223372036854775808"

definition sampleExternals :: Externals where
  "sampleExternals =
     \<lparr>kDynamic = minInt64, areCastCompatible = castCompatible minInt64,
      getStridesAndOffset = stridesAndOffsetOf minInt64\<rparr>"

definition f32 :: ElementType where
  "f32 = ScalarType 32"

text \<open>Two loops inside a function: \<^verbatim>\<open>scf.for\<close> in \<^verbatim>\<open>affine.for\<close> in \<^verbatim>\<open>func.func\<close>.\<close>

definition loopNest :: "Ancestor list" where
  "loopNest =
     [\<lparr>opName = ScfForOp, hasAutomaticAllocationScope = True, numRegions = 1\<rparr>,
      \<lparr>opName = AffineForOp, hasAutomaticAllocationScope = True, numRegions = 1\<rparr>,
      \<lparr>opName = FuncOp, hasAutomaticAllocationScope = True, numRegions = 1\<rparr>]"

text \<open>
  A transfer of \<^verbatim>\<open>vector<4xf32>\<close> on \<^verbatim>\<open>memref<?xf32>\<close> (layout \<open>l\<close>) at the index
  \<open>Arg 1\<close>, with no flag set and no mask; the source is \<open>Arg 0\<close>.
\<close>

definition transfer1D :: "Layout \<Rightarrow> op TransferKind \<Rightarrow> VectorTransferOp" where
  "transfer1D l k =
     \<lparr>attrs = \<lparr>shapedType = \<lparr>shape = [minInt64], elementType = f32, layout = l\<rparr>,
               vectorShape = [4], vectorElementType = f32,
               permutation_map = \<lparr>numDims = 1, results = [AffineDimExpr 0]\<rparr>,
               in_bounds = None\<rparr>,
      kind = k, source = Arg 0, indices = [Arg 1], getMask = None\<rparr>"

text \<open>
  A read of \<^verbatim>\<open>vector<4x4xf32>\<close> on \<^verbatim>\<open>memref<8x?xf32>\<close> at the constant index 2 and
  the index \<open>Arg 1\<close>, and a run in which \<open>Arg 1\<close> is 5 and the source is 8 by 9.
\<close>

definition transfer2D :: VectorTransferOp where
  "transfer2D =
     \<lparr>attrs = \<lparr>shapedType = \<lparr>shape = [8, minInt64], elementType = f32, layout = IdentityLayout\<rparr>,
               vectorShape = [4, 4], vectorElementType = f32,
               permutation_map = \<lparr>numDims = 2, results = [AffineDimExpr 0, AffineDimExpr 1]\<rparr>,
               in_bounds = None\<rparr>,
      kind = TransferReadOp (Arg 3), source = Arg 0, indices = [ConstantIndexOp 2, Arg 1],
      getMask = None\<rparr>"

definition sampleRun :: Run where
  "sampleRun = \<lparr>argValue = (\<lambda>n. 5), extent = (\<lambda>v dim. if dim = 0 then 8 else 9)\<rparr>"

text \<open>Three descriptor types: strided with a dynamic extent, plain, and not strided.\<close>

definition stridedA :: MemRefType where
  "stridedA = \<lparr>shape = [minInt64, 8], elementType = f32, layout = StridedLayoutAttr 0 [16, 1]\<rparr>"

definition plainB :: MemRefType where
  "plainB = \<lparr>shape = [4, 8], elementType = f32, layout = IdentityLayout\<rparr>"

definition opaqueC :: MemRefType where
  "opaqueC = \<lparr>shape = [4, 8], elementType = f32, layout = OpaqueLayout 0\<rparr>"

text \<open>
  The one-dimensional samples: a write of \<open>Arg 2\<close>, a read with padding \<open>Arg 3\<close>, a
  read of a source that is not strided, a read with a mask; the scratch buffer of all
  of them, and their bounds condition.
\<close>

definition write1D :: VectorTransferOp where
  "write1D = transfer1D IdentityLayout (TransferWriteOp (Arg 2))"

definition read1D :: VectorTransferOp where
  "read1D = transfer1D IdentityLayout (TransferReadOp (Arg 3))"

definition unstridedRead :: VectorTransferOp where
  "unstridedRead = transfer1D (OpaqueLayout 0) (TransferReadOp (Arg 3))"

definition maskedRead :: VectorTransferOp where
  "maskedRead = read1D\<lparr>getMask := Some (Arg 4)\<rparr>"

definition alloc4 :: op where
  "alloc4 = AllocaOp \<lparr>shape = [4], elementType = f32, layout = IdentityLayout\<rparr> 32"

definition sum1D :: op where
  "sum1D = AffineApplyOp \<lparr>numDims = 1, results = [AffineAdd (AffineDimExpr 0) (AffineConstantExpr 4)]\<rparr> [Arg 1]"

definition cond1D :: op where
  "cond1D = CmpIOp sle sum1D (DimOp (Arg 0) 0)"

definition acceptAll :: "VectorTransferOp \<Rightarrow> LogicalResult" where
  "acceptAll x = success"

definition underIf :: "Ancestor list" where
  "underIf = \<lparr>opName = ScfIfOp, hasAutomaticAllocationScope = False, numRegions = 2\<rparr> # loopNest"

definition noScope :: "Ancestor list" where
  "noScope = [\<lparr>opName = OtherOp 0, hasAutomaticAllocationScope = False, numRegions = 1\<rparr>]"

text \<open>The first conditional of the sample read under the bulk-copy strategy.\<close>

definition readIf1D :: op where
  "readIf1D =
     IfOp cond1D [YieldOp [Arg 0, Arg 1]]
       [FillOp (Arg 3) alloc4,
        DimOp (Arg 0) 0, DimOp alloc4 0,
        AffineMinOp \<lparr>numDims = 3, results = [AffineSub (AffineDimExpr 0) (AffineDimExpr 1), AffineDimExpr 2]\<rparr>
          [DimOp (Arg 0) 0, Arg 1, DimOp alloc4 0],
        SubViewOp (Arg 0) [Val (Arg 1)]
          [Val (AffineMinOp \<lparr>numDims = 3, results = [AffineSub (AffineDimExpr 0) (AffineDimExpr 1), AffineDimExpr 2]\<rparr>
                 [DimOp (Arg 0) 0, Arg 1, DimOp alloc4 0])] [Attr 1],
        SubViewOp alloc4 [Attr 0]
          [Val (AffineMinOp \<lparr>numDims = 3, results = [AffineSub (AffineDimExpr 0) (AffineDimExpr 1), AffineDimExpr 2]\<rparr>
                 [DimOp (Arg 0) 0, Arg 1, DimOp alloc4 0])] [Attr 1],
        CopyOp
          (SubViewOp (Arg 0) [Val (Arg 1)]
            [Val (AffineMinOp \<lparr>numDims = 3, results = [AffineSub (AffineDimExpr 0) (AffineDimExpr 1), AffineDimExpr 2]\<rparr>
                   [DimOp (Arg 0) 0, Arg 1, DimOp alloc4 0])] [Attr 1])
          (SubViewOp alloc4 [Attr 0]
            [Val (AffineMinOp \<lparr>numDims = 3, results = [AffineSub (AffineDimExpr 0) (AffineDimExpr 1), AffineDimExpr 2]\<rparr>
                   [DimOp (Arg 0) 0, Arg 1, DimOp alloc4 0])] [Attr 1]),
        CastOp (shapedType (attrs read1D)) alloc4,
        YieldOp [CastOp (shapedType (attrs read1D)) alloc4, ConstantIndexOp 0]]"


text \<open>
  The overlap size of the one-dimensional samples; the sample write on a region of the
  static extent 10, and a run in which its index is 8; a run in which the index is 1
  and the region's extent is 3; and the second conditional of the sample write under
  the bulk-copy strategy. The buffer has the extent 4 in both runs.
\<close>

definition size1D :: op where
  "size1D =
     AffineMinOp \<lparr>numDims = 3, results = [AffineSub (AffineDimExpr 0) (AffineDimExpr 1), AffineDimExpr 2]\<rparr>
       [DimOp (Arg 0) 0, Arg 1, DimOp alloc4 0]"

definition write10 :: VectorTransferOp where
  "write10 =
     write1D\<lparr>attrs := (attrs write1D)\<lparr>shapedType := \<lparr>shape = [10], elementType = f32, layout = IdentityLayout\<rparr>\<rparr>\<rparr>"

definition run10 :: Run where
  "run10 = \<lparr>argValue = (\<lambda>n. 8), extent = (\<lambda>v dim. if v = Arg 0 then 10 else 4)\<rparr>"

definition run3 :: Run where
  "run3 = \<lparr>argValue = (\<lambda>n. 1), extent = (\<lambda>v dim. if v = Arg 0 then 3 else 4)\<rparr>"


definition copyBack1D :: op where
  "copyBack1D =
     IfOp (notInBounds cond1D)
       [DimOp (Arg 0) 0, DimOp alloc4 0, size1D,
        SubViewOp alloc4 [Val (Arg 1)] [Val size1D] [Attr 1],
        SubViewOp (Arg 0) [Attr 0] [Val size1D] [Attr 1],
        CopyOp (SubViewOp alloc4 [Val (Arg 1)] [Val size1D] [Attr 1])
               (SubViewOp (Arg 0) [Attr 0] [Val size1D] [Attr 1]),
        YieldOp []]
       []"

text \<open>The second conditional of the sample write under the reissue strategy.\<close>

definition reissue1D :: op where
  "reissue1D =
     IfOp (notInBounds cond1D)
       [TypeCastOp (vectorCellType write1D) alloc4,
        LoadOp (TypeCastOp (vectorCellType write1D) alloc4),
        asOperation (write1D\<lparr>kind := TransferWriteOp (LoadOp (TypeCastOp (vectorCellType write1D) alloc4))\<rparr>),
        YieldOp []]
       []"

section \<open>Properties of getCastCompatibleMemRefType\<close>

lemma upd_prefix:
  assumes "k < length M"
  shows "(take k M @ replicate (length M - k) z)[k := M ! k] = take (Suc k) M @ replicate (length M - Suc k) z"
proof -
  have r: "replicate (length M - k) z = z # replicate (length M - Suc k) z"
    using assms by (metis Suc_diff_Suc replicate_Suc)
  have l: "length (take k M) = k" using assms by simp
  have "(take k M @ z # replicate (length M - Suc k) z)[length (take k M) := M ! k]
        = take k M @ M ! k # replicate (length M - Suc k) z"
    by (rule list_update_length)
  then show ?thesis using assms by (simp add: r l take_Suc_conv_app_nth)
qed

lemma fold_unifyStep:
  assumes "length aShape = n" "length bShape = n" "length aStrides = n" "length bStrides = n"
  shows "k \<le> n \<Longrightarrow> fold (unifyStep dyn aShape bShape aStrides bStrides) [0..<k]
            (Inr (replicate n 0, replicate n 0))
         = Inr (take k (map2 (sharedOrDynamic dyn) aShape bShape) @ replicate (n - k) 0,
                take k (map2 (sharedOrDynamic dyn) aStrides bStrides) @ replicate (n - k) 0)"
proof (induction k)
  case 0
  then show ?case by simp
next
  case (Suc k)
  let ?M = "map2 (sharedOrDynamic dyn) aShape bShape"
  let ?S = "map2 (sharedOrDynamic dyn) aStrides bStrides"
  have lm: "length ?M = n" "length ?S = n" using assms by simp_all
  have k: "k < n" using Suc.prems by simp
  have m: "?M ! k = sharedOrDynamic dyn (aShape ! k) (bShape ! k)" "?S ! k = sharedOrDynamic dyn (aStrides ! k) (bStrides ! k)"
    using k assms by simp_all
  have u1: "(take k ?M @ replicate (n - k) 0)[k := ?M ! k] = take (Suc k) ?M @ replicate (n - Suc k) 0"
    using upd_prefix[of k ?M 0] k lm by metis
  have u2: "(take k ?S @ replicate (n - k) 0)[k := ?S ! k] = take (Suc k) ?S @ replicate (n - Suc k) 0"
    using upd_prefix[of k ?S 0] k lm by metis
  have "fold (unifyStep dyn aShape bShape aStrides bStrides) [0..<Suc k] (Inr (replicate n 0, replicate n 0))
      = unifyStep dyn aShape bShape aStrides bStrides k
          (Inr (take k ?M @ replicate (n - k) 0, take k ?S @ replicate (n - k) 0))"
    using Suc by simp
  also have "\<dots> = Inr ((take k ?M @ replicate (n - k) 0)[k := ?M ! k], (take k ?S @ replicate (n - k) 0)[k := ?S ! k])"
    using k assms lm by (simp add: unifyStep_def bind_def at_def m sharedOrDynamic_def)
  finally show ?case using u1 u2 by simp
qed


lemma getCastCompatibleMemRefType_unified:
  assumes "\<not> areCastCompatible ext aT bT" "getRank aT = getRank bT"
    "getStridesAndOffset ext aT = Some (aStrides, aOffset)"
    "getStridesAndOffset ext bT = Some (bStrides, bOffset)"
    "length aStrides = getRank aT" "length bStrides = getRank bT"
  shows "getCastCompatibleMemRefType ext aT bT =
           Inr (Some \<lparr>shape = map2 (sharedOrDynamic (kDynamic ext)) (shape aT) (shape bT),
                      elementType = elementType aT,
                      layout = StridedLayoutAttr (sharedOrDynamic (kDynamic ext) aOffset bOffset)
                                 (map2 (sharedOrDynamic (kDynamic ext)) aStrides bStrides)\<rparr>)"
proof -
  let ?n = "getRank aT"
  have len: "length (shape aT) = ?n" "length (shape bT) = ?n" "length aStrides = ?n" "length bStrides = ?n"
    using assms by (simp_all add: getRank_def)
  have f: "fold (unifyStep (kDynamic ext) (shape aT) (shape bT) aStrides bStrides) [0..<?n]
             (Inr (replicate ?n 0, replicate ?n 0))
           = Inr (map2 (sharedOrDynamic (kDynamic ext)) (shape aT) (shape bT),
                  map2 (sharedOrDynamic (kDynamic ext)) aStrides bStrides)"
    using fold_unifyStep[OF len, of ?n "kDynamic ext"] len by simp
  show ?thesis
    using assms f by (simp add: getCastCompatibleMemRefType_def bind_def sharedOrDynamic_def)
qed

text \<open>
  Claim C4. \<open>getCastCompatibleMemRefType aT bT\<close> returns \<open>aT\<close> unchanged when the two
  types are cast-compatible. Otherwise it returns the null type when the ranks differ
  or one of the types is not strided. Otherwise (the strides being one per dimension)
  it returns a strided type with the element type of \<open>aT\<close> whose extent and stride at
  each dimension are the shared value where \<open>aT\<close> and \<open>bT\<close> agree and dynamic where
  they do not, and whose offset follows the same rule.
\<close>

theorem getCastCompatibleMemRefType_cases:
  "(areCastCompatible ext aT bT \<longrightarrow> getCastCompatibleMemRefType ext aT bT = Inr (Some aT)) \<and>
   (\<not> areCastCompatible ext aT bT \<and>
      (getRank aT \<noteq> getRank bT \<or> getStridesAndOffset ext aT = None \<or>
       getStridesAndOffset ext bT = None) \<longrightarrow>
      getCastCompatibleMemRefType ext aT bT = Inr None) \<and>
   (\<not> areCastCompatible ext aT bT \<and> getRank aT = getRank bT \<and>
      getStridesAndOffset ext aT = Some (aStrides, aOffset) \<and>
      getStridesAndOffset ext bT = Some (bStrides, bOffset) \<and>
      length aStrides = getRank aT \<and> length bStrides = getRank bT \<longrightarrow>
      (\<exists>resShape resStrides resOffset.
         getCastCompatibleMemRefType ext aT bT =
           Inr (Some \<lparr>shape = resShape, elementType = elementType aT,
                      layout = StridedLayoutAttr resOffset resStrides\<rparr>) \<and>
         length resShape = getRank aT \<and> length resStrides = getRank aT \<and>
         (\<forall>idx < getRank aT.
            resShape ! idx = sharedOrDynamic (kDynamic ext) (shape aT ! idx) (shape bT ! idx) \<and>
            resStrides ! idx = sharedOrDynamic (kDynamic ext) (aStrides ! idx) (bStrides ! idx)) \<and>
         resOffset = sharedOrDynamic (kDynamic ext) aOffset bOffset))"
proof (intro conjI impI)
  assume "areCastCompatible ext aT bT"
  then show "getCastCompatibleMemRefType ext aT bT = Inr (Some aT)"
    by (simp add: getCastCompatibleMemRefType_def)
next
  assume "\<not> areCastCompatible ext aT bT \<and>
      (getRank aT \<noteq> getRank bT \<or> getStridesAndOffset ext aT = None \<or>
       getStridesAndOffset ext bT = None)"
  then show "getCastCompatibleMemRefType ext aT bT = Inr None"
    by (auto simp: getCastCompatibleMemRefType_def split: option.splits prod.splits)
next
  assume a: "\<not> areCastCompatible ext aT bT \<and> getRank aT = getRank bT \<and>
      getStridesAndOffset ext aT = Some (aStrides, aOffset) \<and>
      getStridesAndOffset ext bT = Some (bStrides, bOffset) \<and>
      length aStrides = getRank aT \<and> length bStrides = getRank bT"
  then have g: "getCastCompatibleMemRefType ext aT bT =
           Inr (Some \<lparr>shape = map2 (sharedOrDynamic (kDynamic ext)) (shape aT) (shape bT),
                      elementType = elementType aT,
                      layout = StridedLayoutAttr (sharedOrDynamic (kDynamic ext) aOffset bOffset)
                                 (map2 (sharedOrDynamic (kDynamic ext)) aStrides bStrides)\<rparr>)"
    using getCastCompatibleMemRefType_unified by blast
  have len: "length (shape aT) = getRank aT" "length (shape bT) = getRank aT"
    using a by (simp_all add: getRank_def)
  show "\<exists>resShape resStrides resOffset.
         getCastCompatibleMemRefType ext aT bT =
           Inr (Some \<lparr>shape = resShape, elementType = elementType aT,
                      layout = StridedLayoutAttr resOffset resStrides\<rparr>) \<and>
         length resShape = getRank aT \<and> length resStrides = getRank aT \<and>
         (\<forall>idx < getRank aT.
            resShape ! idx = sharedOrDynamic (kDynamic ext) (shape aT ! idx) (shape bT ! idx) \<and>
            resStrides ! idx = sharedOrDynamic (kDynamic ext) (aStrides ! idx) (bStrides ! idx)) \<and>
         resOffset = sharedOrDynamic (kDynamic ext) aOffset bOffset"
    using g a len by (intro exI[of _ "map2 (sharedOrDynamic (kDynamic ext)) (shape aT) (shape bT)"]
        exI[of _ "map2 (sharedOrDynamic (kDynamic ext)) aStrides bStrides"]
        exI[of _ "sharedOrDynamic (kDynamic ext) aOffset bOffset"]) simp
qed

lemmas sample_defs = sampleExternals_def castCompatible_def stridesAndOffsetOf_def staticAgree_def
  minInt64_def f32_def stridedA_def plainB_def opaqueC_def getRank_def

text \<open>
  The three cases at sample types: a type with itself, a type that is not strided, and
  a strided \<^verbatim>\<open>memref<?x8xf32>\<close> with strides 16 and 1 against the plain
  \<^verbatim>\<open>memref<4x8xf32>\<close>.
\<close>

theorem getCastCompatibleMemRefType_cases_witness:
  "areCastCompatible sampleExternals plainB plainB \<and>
   getCastCompatibleMemRefType sampleExternals plainB plainB = Inr (Some plainB) \<and>
   \<not> areCastCompatible sampleExternals opaqueC plainB \<and>
   getStridesAndOffset sampleExternals opaqueC = None \<and>
   getCastCompatibleMemRefType sampleExternals opaqueC plainB = Inr None \<and>
   \<not> areCastCompatible sampleExternals stridedA plainB \<and>
   getRank stridedA = getRank plainB \<and>
   getStridesAndOffset sampleExternals stridedA = Some ([16, 1], 0) \<and>
   getStridesAndOffset sampleExternals plainB = Some ([8, 1], 0) \<and>
   getCastCompatibleMemRefType sampleExternals stridedA plainB =
     Inr (Some \<lparr>shape = [minInt64, 8], elementType = f32,
                layout = StridedLayoutAttr 0 [minInt64, 1]\<rparr>)"
proof -
  have c1: "areCastCompatible sampleExternals plainB plainB"
    by (simp add: sample_defs)
  have c2: "\<not> areCastCompatible sampleExternals opaqueC plainB"
    "getStridesAndOffset sampleExternals opaqueC = None"
    by (simp_all add: sample_defs)
  have c3: "\<not> areCastCompatible sampleExternals stridedA plainB"
    "getRank stridedA = getRank plainB"
    "getStridesAndOffset sampleExternals stridedA = Some ([16, 1], 0)"
    "getStridesAndOffset sampleExternals plainB = Some ([8, 1], 0)"
    by (simp_all add: sample_defs)
  have l: "length [16, 1 :: i64] = getRank stridedA" "length [8, 1 :: i64] = getRank plainB"
    by (simp_all add: sample_defs)
  note t1 = getCastCompatibleMemRefType_cases[of sampleExternals plainB plainB]
  note t2 = getCastCompatibleMemRefType_cases[of sampleExternals opaqueC plainB]
  note t3 = getCastCompatibleMemRefType_cases[of sampleExternals stridedA plainB "[16, 1]" 0 "[8, 1]" 0]
  have r1: "getCastCompatibleMemRefType sampleExternals plainB plainB = Inr (Some plainB)"
    using t1 c1 by blast
  have r2: "getCastCompatibleMemRefType sampleExternals opaqueC plainB = Inr None"
    using t2 c2 by blast
  obtain resShape resStrides resOffset where
    g: "getCastCompatibleMemRefType sampleExternals stridedA plainB =
           Inr (Some \<lparr>shape = resShape, elementType = elementType stridedA,
                      layout = StridedLayoutAttr resOffset resStrides\<rparr>)"
    and len: "length resShape = getRank stridedA" "length resStrides = getRank stridedA"
    and nth: "\<forall>idx < getRank stridedA.
            resShape ! idx = sharedOrDynamic (kDynamic sampleExternals) (shape stridedA ! idx) (shape plainB ! idx) \<and>
            resStrides ! idx = sharedOrDynamic (kDynamic sampleExternals) ([16, 1] ! idx) ([8, 1] ! idx)"
    and off: "resOffset = sharedOrDynamic (kDynamic sampleExternals) 0 0"
    using t3 c3 l by blast
  have two: "xs = [xs ! 0, xs ! 1]" if "length xs = 2" for xs :: "i64 list"
    using that by (auto simp: list_eq_iff_nth_eq less_Suc_eq numeral_2_eq_2)
  have n0: "resShape ! 0 = minInt64" "resStrides ! 0 = minInt64"
    using nth[rule_format, of 0] by (simp_all add: sample_defs sharedOrDynamic_def)
  have n1: "resShape ! 1 = 8" "resStrides ! 1 = 1"
    using nth[rule_format, of 1] by (simp_all add: sample_defs sharedOrDynamic_def)
  have "resShape = [minInt64, 8]" "resStrides = [minInt64, 1]"
    using two[of resShape] two[of resStrides] len n0 n1 by (simp_all add: sample_defs)
  then have r3: "getCastCompatibleMemRefType sampleExternals stridedA plainB =
     Inr (Some \<lparr>shape = [minInt64, 8], elementType = f32,
                layout = StridedLayoutAttr 0 [minInt64, 1]\<rparr>)"
    using g off by (simp add: sharedOrDynamic_def stridedA_def)
  show ?thesis using c1 c2 c3 r1 r2 r3 by simp
qed

section \<open>Properties of createInBoundsCond\<close>

lemma extendCond_Nil [simp]: "extendCond c [] = c"
  by (simp add: extendCond_def conjunction_def andAll_def split: option.splits)

lemma extendCond_Cons:
  "extendCond c (d # ds) = extendCond (Some (case c of None \<Rightarrow> d | Some c0 \<Rightarrow> AndIOp c0 d)) ds"
  by (simp add: extendCond_def conjunction_def andAll_def split: option.splits)

lemma those_single: "those [y] = map_option (\<lambda>k. [k]) y"
  by (cases y) simp_all

lemma constantOf_Some: "constantOf v = Some k \<Longrightarrow> v = ConstantIndexOp k"
  by (cases v) simp_all

lemma inBoundsCondStep_skip:
  assumes "isDimInBounds x r \<or> foldsAway dyn x r"
  shows "inBoundsCondStep dyn x r (getLeadingShapedRank x + r) (c, b) = (c, b)"
proof (cases "isDimInBounds x r")
  case True
  then show ?thesis by (simp add: inBoundsCondStep_def)
next
  case False
  with assms have f: "foldsAway dyn x r" by simp
  then obtain k where k: "constantOf (indices x ! (getLeadingShapedRank x + r)) = Some k"
    and d: "shape (shapedType (attrs x)) ! (getLeadingShapedRank x + r) \<noteq> dyn"
    and s: "word_sle (k + vectorShape (attrs x) ! r) (shape (shapedType (attrs x)) ! (getLeadingShapedRank x + r))"
    by (auto simp: foldsAway_def Let_def split: option.splits)
  show ?thesis
    using False k d s
    by (simp add: inBoundsCondStep_def makeComposedFoldedAffineApply_def those_single
        getMixedSize_def getConstantIntValue_def Let_def)
qed

lemma inBoundsCondStep_check:
  assumes "\<not> isDimInBounds x r" "\<not> foldsAway dyn x r"
  shows "\<exists>b'. inBoundsCondStep dyn x r (getLeadingShapedRank x + r) (c, b) =
           (Some (case c of None \<Rightarrow> boundsCheck dyn x r | Some c0 \<Rightarrow> AndIOp c0 (boundsCheck dyn x r)), b')"
proof (cases "constantOf (indices x ! (getLeadingShapedRank x + r))")
  case None
  then show ?thesis
    using assms
    by (cases c; cases "shape (shapedType (attrs x)) ! (getLeadingShapedRank x + r) = dyn")
       (simp_all add: inBoundsCondStep_def makeComposedFoldedAffineApply_def those_single
        getMixedSize_def getConstantIntValue_def Let_def create_def boundsCheck_def
        getValueOrCreateConstantIndexOp_def)
next
  case (Some k)
  then show ?thesis
    using assms
    by (cases c; cases "shape (shapedType (attrs x)) ! (getLeadingShapedRank x + r) = dyn")
       (simp_all add: inBoundsCondStep_def makeComposedFoldedAffineApply_def those_single
        getMixedSize_def getConstantIntValue_def Let_def create_def boundsCheck_def
        getValueOrCreateConstantIndexOp_def foldsAway_def)
qed

lemma fold_inBoundsCondStep:
  "\<exists>b'. fold (\<lambda>r. inBoundsCondStep dyn x r (getLeadingShapedRank x + r)) rs (c, b) =
     (extendCond c (map (boundsCheck dyn x)
        (filter (\<lambda>r. \<not> isDimInBounds x r \<and> \<not> foldsAway dyn x r) rs)), b') \<and>
     (extendCond c (map (boundsCheck dyn x)
        (filter (\<lambda>r. \<not> isDimInBounds x r \<and> \<not> foldsAway dyn x r) rs)) = None \<longrightarrow> b' = b)"
proof (induction rs arbitrary: c b)
  case Nil
  then show ?case by simp
next
  case (Cons r rs)
  show ?case
  proof (cases "isDimInBounds x r \<or> foldsAway dyn x r")
    case True
    then show ?thesis
      using Cons.IH[of c b] inBoundsCondStep_skip[OF True, of c b] by auto
  next
    case False
    then obtain b1 where s: "inBoundsCondStep dyn x r (getLeadingShapedRank x + r) (c, b) =
           (Some (case c of None \<Rightarrow> boundsCheck dyn x r | Some c0 \<Rightarrow> AndIOp c0 (boundsCheck dyn x r)), b1)"
      using inBoundsCondStep_check[of x r dyn c b] by auto
    have ne: "extendCond (Some c1) cs \<noteq> None" for c1 cs
      by (simp add: extendCond_def)
    show ?thesis
      using False s Cons.IH[of "Some (case c of None \<Rightarrow> boundsCheck dyn x r | Some c0 \<Rightarrow> AndIOp c0 (boundsCheck dyn x r))" b1]
      by (auto simp: extendCond_Cons ne)
  qed
qed

lemma createInBoundsCond_structure:
  assumes "isMinorIdentity (permutation_map (attrs x))"
  shows "\<exists>b'. createInBoundsCond dyn b x =
           Inr (conjunction (map (boundsCheck dyn x) (checkedDims dyn x)), b') \<and>
           (conjunction (map (boundsCheck dyn x) (checkedDims dyn x)) = None \<longrightarrow> b' = b)"
  using assms fold_inBoundsCondStep[of dyn x "[0..<getTransferRank x]" None b]
  by (simp add: createInBoundsCond_def zipResultAndIndexing_def checkedDims_def extendCond_def)

lemma inBoundsCondStep_check_cmps:
  assumes "\<not> isDimInBounds x r" "\<not> foldsAway dyn x r"
  shows "filter isCmpIOp (snd (inBoundsCondStep dyn x r (getLeadingShapedRank x + r) (c, b))) =
           filter isCmpIOp b @ [boundsCheck dyn x r]"
proof (cases "constantOf (indices x ! (getLeadingShapedRank x + r))")
  case None
  then show ?thesis
    using assms
    by (cases c; cases "shape (shapedType (attrs x)) ! (getLeadingShapedRank x + r) = dyn")
       (simp_all add: inBoundsCondStep_def makeComposedFoldedAffineApply_def those_single
        getMixedSize_def getConstantIntValue_def Let_def create_def boundsCheck_def
        getValueOrCreateConstantIndexOp_def)
next
  case (Some k)
  then show ?thesis
    using assms
    by (cases c; cases "shape (shapedType (attrs x)) ! (getLeadingShapedRank x + r) = dyn")
       (simp_all add: inBoundsCondStep_def makeComposedFoldedAffineApply_def those_single
        getMixedSize_def getConstantIntValue_def Let_def create_def boundsCheck_def
        getValueOrCreateConstantIndexOp_def foldsAway_def)
qed

lemma fold_inBoundsCondStep_cmps:
  "filter isCmpIOp (snd (fold (\<lambda>r. inBoundsCondStep dyn x r (getLeadingShapedRank x + r)) rs (c, b))) =
     filter isCmpIOp b @
     map (boundsCheck dyn x) (filter (\<lambda>r. \<not> isDimInBounds x r \<and> \<not> foldsAway dyn x r) rs)"
proof (induction rs arbitrary: c b)
  case Nil
  then show ?case by simp
next
  case (Cons r rs)
  show ?case
  proof (cases "isDimInBounds x r \<or> foldsAway dyn x r")
    case True
    then show ?thesis
      using Cons.IH[of c b] inBoundsCondStep_skip[OF True, of c b] by auto
  next
    case False
    obtain c1 b1 where s: "inBoundsCondStep dyn x r (getLeadingShapedRank x + r) (c, b) = (c1, b1)"
      by fastforce
    have "filter isCmpIOp b1 = filter isCmpIOp b @ [boundsCheck dyn x r]"
      using inBoundsCondStep_check_cmps[of x r dyn c b] False s by simp
    then show ?thesis
      using False s Cons.IH[of c1 b1] by simp
  qed
qed

lemma createInBoundsCond_cmps:
  assumes "createInBoundsCond dyn b x = Inr (cond, b')"
  shows "filter isCmpIOp b' = filter isCmpIOp b @ map (boundsCheck dyn x) (checkedDims dyn x)"
proof -
  have "b' = snd (fold (\<lambda>r. inBoundsCondStep dyn x r (getLeadingShapedRank x + r))
                  [0..<getTransferRank x] (None, b))"
    using assms by (auto simp: createInBoundsCond_def zipResultAndIndexing_def split: if_splits)
  then show ?thesis
    using fold_inBoundsCondStep_cmps[of dyn x "[0..<getTransferRank x]" None b]
    by (simp add: checkedDims_def)
qed

lemma conjunction_None: "conjunction cs = None \<longleftrightarrow> cs = []"
  by (simp add: conjunction_def split: list.splits)

lemma evalCond_andAll: "evalCond run (andAll c cs) = (evalCond run c \<and> (\<forall>d \<in> set cs. evalCond run d))"
  by (induction cs arbitrary: c) (auto simp: andAll_def)

lemma evalCond_conjunction:
  "conjunction cs = Some c \<Longrightarrow> evalCond run c = (\<forall>d \<in> set cs. evalCond run d)"
  by (cases cs) (auto simp: conjunction_def evalCond_andAll)


lemma agreesWithShape_nth:
  "agreesWithShape dyn run x \<Longrightarrow> i < getRank (shapedType (attrs x)) \<Longrightarrow>
   shape (shapedType (attrs x)) ! i \<noteq> dyn \<Longrightarrow>
   extent run (source x) i = shape (shapedType (attrs x)) ! i"
  by (auto simp: agreesWithShape_def list_all_iff)

lemma leading_index_in_range:
  assumes "isMinorIdentity (permutation_map (attrs x))" "verified x" "r < getTransferRank x"
  shows "getLeadingShapedRank x + r < getRank (shapedType (attrs x))"
  using assms by (auto simp: isMinorIdentity_def verified_def getTransferRank_def getLeadingShapedRank_def)

lemma evalCond_boundsCheck:
  assumes "agreesWithShape dyn run x" "getLeadingShapedRank x + r < getRank (shapedType (attrs x))"
  shows "evalCond run (boundsCheck dyn x r) = withinBounds run x r"
proof -
  let ?i = "getLeadingShapedRank x + r"
  have e: "shape (shapedType (attrs x)) ! ?i \<noteq> dyn \<Longrightarrow>
           extent run (source x) ?i = shape (shapedType (attrs x)) ! ?i"
    using agreesWithShape_nth[OF assms(1) assms(2)] by simp
  show ?thesis
  proof (cases "constantOf (indices x ! ?i)")
    case None
    then show ?thesis using e
      by (simp add: boundsCheck_def withinBounds_def Let_def inferFromExprList_def)
  next
    case (Some k)
    then have "indices x ! ?i = ConstantIndexOp k" by (rule constantOf_Some)
    then show ?thesis using e Some
      by (simp add: boundsCheck_def withinBounds_def Let_def)
  qed
qed

lemma foldsAway_withinBounds:
  assumes "agreesWithShape dyn run x" "getLeadingShapedRank x + r < getRank (shapedType (attrs x))"
    "foldsAway dyn x r"
  shows "withinBounds run x r"
proof -
  let ?i = "getLeadingShapedRank x + r"
  from assms(3) obtain k where k: "constantOf (indices x ! ?i) = Some k"
    and d: "shape (shapedType (attrs x)) ! ?i \<noteq> dyn"
    and s: "word_sle (k + vectorShape (attrs x) ! r) (shape (shapedType (attrs x)) ! ?i)"
    by (auto simp: foldsAway_def Let_def split: option.splits)
  have "indices x ! ?i = ConstantIndexOp k" using k by (rule constantOf_Some)
  moreover have "extent run (source x) ?i = shape (shapedType (attrs x)) ! ?i"
    using agreesWithShape_nth[OF assms(1) assms(2) d] .
  ultimately show ?thesis using s by (simp add: withinBounds_def Let_def)
qed

text \<open>
  Claim C1. For a transfer with a minor identity map, \<open>createInBoundsCond\<close> returns the
  conjunction of the signed comparisons \<open>index + vector extent \<le> region extent\<close> of
  the dimensions whose in-bounds flag is false and that do not fold away, and creates
  these comparisons and no other. A dimension
  folds away, and gets no comparison, when its sum and the region's extent are both
  constant and the sum is at most the extent. The result is null iff every dimension
  whose flag is false folds away. In every run that agrees with the static extents, the
  condition holds iff \<open>index + vector extent \<le> region extent\<close> holds at every dimension
  whose flag is false.
\<close>

theorem createInBoundsCond_conjunction:
  assumes "isMinorIdentity (permutation_map (attrs x))"
  shows "\<exists>cond b'. createInBoundsCond dyn b x = Inr (cond, b') \<and>
           cond = conjunction (map (boundsCheck dyn x) (checkedDims dyn x)) \<and>
           filter isCmpIOp b' =
             filter isCmpIOp b @ map (boundsCheck dyn x) (checkedDims dyn x) \<and>
           (cond = None \<longleftrightarrow>
              (\<forall>r < getTransferRank x. \<not> isDimInBounds x r \<longrightarrow> foldsAway dyn x r)) \<and>
           (verified x \<and> agreesWithShape dyn run x \<longrightarrow>
              (\<forall>c. cond = Some c \<longrightarrow>
                 evalCond run c =
                   (\<forall>r < getTransferRank x. \<not> isDimInBounds x r \<longrightarrow> withinBounds run x r)))"
proof -
  let ?cond = "conjunction (map (boundsCheck dyn x) (checkedDims dyn x))"
  obtain b' where c: "createInBoundsCond dyn b x = Inr (?cond, b')"
    using createInBoundsCond_structure[OF assms, of dyn b] by blast
  have n: "?cond = None \<longleftrightarrow>
             (\<forall>r < getTransferRank x. \<not> isDimInBounds x r \<longrightarrow> foldsAway dyn x r)"
    by (auto simp: conjunction_None checkedDims_def filter_empty_conv)
  have e: "evalCond run c =
             (\<forall>r < getTransferRank x. \<not> isDimInBounds x r \<longrightarrow> withinBounds run x r)"
    if v: "verified x" and a: "agreesWithShape dyn run x" and s: "?cond = Some c" for c
  proof -
    have r: "getLeadingShapedRank x + r < getRank (shapedType (attrs x))"
      if "r < getTransferRank x" for r
      using leading_index_in_range[OF assms v that] .
    have "evalCond run c = (\<forall>d \<in> set (map (boundsCheck dyn x) (checkedDims dyn x)). evalCond run d)"
      using evalCond_conjunction[OF s] .
    also have "\<dots> = (\<forall>r \<in> set (checkedDims dyn x). withinBounds run x r)"
      using evalCond_boundsCheck[OF a r] by (auto simp: checkedDims_def)
    also have "\<dots> = (\<forall>r < getTransferRank x. \<not> isDimInBounds x r \<longrightarrow> withinBounds run x r)"
      using foldsAway_withinBounds[OF a r] by (auto simp: checkedDims_def)
    finally show ?thesis .
  qed
  show ?thesis
  proof (intro exI[of _ ?cond] exI[of _ b'] conjI impI allI)
    show "createInBoundsCond dyn b x = Inr (?cond, b')" by (rule c)
    show "?cond = ?cond" by (rule refl)
    show "filter isCmpIOp b' = filter isCmpIOp b @ map (boundsCheck dyn x) (checkedDims dyn x)"
      by (rule createInBoundsCond_cmps[OF c])
    show "?cond = None \<longleftrightarrow>
             (\<forall>r < getTransferRank x. \<not> isDimInBounds x r \<longrightarrow> foldsAway dyn x r)" by (rule n)
    fix c assume "verified x \<and> agreesWithShape dyn run x" "?cond = Some c"
    then show "evalCond run c =
             (\<forall>r < getTransferRank x. \<not> isDimInBounds x r \<longrightarrow> withinBounds run x r)"
      using e by blast
  qed
qed

lemmas transfer2D_defs = transfer2D_def sampleRun_def minInt64_def f32_def isMinorIdentity_def
  verified_def agreesWithShape_def getRank_def getTransferRank_def getLeadingShapedRank_def
  isDimInBounds_def foldsAway_def withinBounds_def Let_def

lemma transfer2D_cond:
  "createInBoundsCond minInt64 [] transfer2D =
     Inr (Some (CmpIOp sle
                  (AffineApplyOp \<lparr>numDims = 1, results = [AffineAdd (AffineDimExpr 0) (AffineConstantExpr 4)]\<rparr> [Arg 1])
                  (DimOp (Arg 0) 1)),
          [AffineApplyOp \<lparr>numDims = 1, results = [AffineAdd (AffineDimExpr 0) (AffineConstantExpr 4)]\<rparr> [Arg 1],
           DimOp (Arg 0) 1,
           CmpIOp sle
             (AffineApplyOp \<lparr>numDims = 1, results = [AffineAdd (AffineDimExpr 0) (AffineConstantExpr 4)]\<rparr> [Arg 1])
             (DimOp (Arg 0) 1)])"
  by (simp add: createInBoundsCond_def zipResultAndIndexing_def inBoundsCondStep_def
      makeComposedFoldedAffineApply_def getMixedSize_def getConstantIntValue_def
      getValueOrCreateConstantIndexOp_def create_def inferFromExprList_def transfer2D_defs
      upt_rec)

text \<open>
  At the sample read: the region's extent 8, the vector's extent 4 and the constant
  index 2 give no check for the first dimension (2 + 4 \<le> 8); the second dimension,
  with a dynamic index and a dynamic extent, gives the only comparison.
\<close>

theorem createInBoundsCond_conjunction_witness:
  "isMinorIdentity (permutation_map (attrs transfer2D)) \<and> verified transfer2D \<and>
   agreesWithShape minInt64 sampleRun transfer2D \<and>
   foldsAway minInt64 transfer2D 0 \<and> \<not> foldsAway minInt64 transfer2D 1 \<and>
   createInBoundsCond minInt64 [] transfer2D =
     Inr (Some (CmpIOp sle
                  (AffineApplyOp \<lparr>numDims = 1, results = [AffineAdd (AffineDimExpr 0) (AffineConstantExpr 4)]\<rparr> [Arg 1])
                  (DimOp (Arg 0) 1)),
          [AffineApplyOp \<lparr>numDims = 1, results = [AffineAdd (AffineDimExpr 0) (AffineConstantExpr 4)]\<rparr> [Arg 1],
           DimOp (Arg 0) 1,
           CmpIOp sle
             (AffineApplyOp \<lparr>numDims = 1, results = [AffineAdd (AffineDimExpr 0) (AffineConstantExpr 4)]\<rparr> [Arg 1])
             (DimOp (Arg 0) 1)]) \<and>
   evalCond sampleRun (CmpIOp sle
                  (AffineApplyOp \<lparr>numDims = 1, results = [AffineAdd (AffineDimExpr 0) (AffineConstantExpr 4)]\<rparr> [Arg 1])
                  (DimOp (Arg 0) 1)) \<and>
   withinBounds sampleRun transfer2D 0 \<and> withinBounds sampleRun transfer2D 1"
proof -
  let ?c = "CmpIOp sle
                  (AffineApplyOp \<lparr>numDims = 1, results = [AffineAdd (AffineDimExpr 0) (AffineConstantExpr 4)]\<rparr> [Arg 1])
                  (DimOp (Arg 0) 1)"
  have m: "isMinorIdentity (permutation_map (attrs transfer2D))"
    by (simp add: transfer2D_defs upt_rec)
  have v: "verified transfer2D" by (simp add: transfer2D_defs)
  have a: "agreesWithShape minInt64 sampleRun transfer2D"
    by (simp add: transfer2D_defs upt_rec)
  have f: "foldsAway minInt64 transfer2D 0" "\<not> foldsAway minInt64 transfer2D 1"
    by (simp_all add: transfer2D_defs)
  have w: "withinBounds sampleRun transfer2D 0" "withinBounds sampleRun transfer2D 1"
    by (simp_all add: transfer2D_defs)
  have all: "(\<forall>r < getTransferRank transfer2D. \<not> isDimInBounds transfer2D r \<longrightarrow> withinBounds sampleRun transfer2D r)"
    using w by (auto simp: getTransferRank_def transfer2D_def less_Suc_eq numeral_2_eq_2)
  obtain cond b' where c: "createInBoundsCond minInt64 [] transfer2D = Inr (cond, b')"
    and e: "\<forall>c. cond = Some c \<longrightarrow> evalCond sampleRun c =
       (\<forall>r < getTransferRank transfer2D. \<not> isDimInBounds transfer2D r \<longrightarrow> withinBounds sampleRun transfer2D r)"
    using createInBoundsCond_conjunction[OF m, of minInt64 "[]" sampleRun] v a by blast
  have "cond = Some ?c" using c transfer2D_cond by simp
  then have "evalCond sampleRun ?c" using e all by blast
  then show ?thesis using m v a f w transfer2D_cond by simp
qed

section \<open>Properties of getAutomaticAllocationScope\<close>

lemma walked_Nil: "walked [] = []" by (simp add: walked_def)
lemma walked_Cons: "walked (p # ps) = (if isLoop p then p # walked ps else [p])"
  by (simp add: walked_def)

lemma scopeWalk_char:
  "scopeWalk ps i scope =
     (case filter (\<lambda>j. hasAutomaticAllocationScope (ps ! j)) (rev [0..<length (walked ps)]) of
        [] \<Rightarrow> scope | j # _ \<Rightarrow> Some (i + j))"
proof (induction ps arbitrary: i scope)
  case Nil
  then show ?case by (simp add: walked_Nil)
next
  case (Cons p ps)
  show ?case
  proof (cases "isLoop p")
    case False
    then show ?thesis by (simp add: walked_Cons)
  next
    case True
    let ?n = "length (walked ps)"
    have up: "[0..<Suc ?n] = 0 # map Suc [0..<?n]"
      by (simp add: upt_conv_Cons map_Suc_upt del: upt_Suc)
    have f: "filter (\<lambda>j. hasAutomaticAllocationScope ((p # ps) ! j)) (rev [0..<Suc ?n])
          = map Suc (filter (\<lambda>j. hasAutomaticAllocationScope (ps ! j)) (rev [0..<?n]))
            @ (if hasAutomaticAllocationScope p then [0] else [])"
      unfolding up by (simp add: rev_map filter_map comp_def del: upt_Suc)
    show ?thesis
      using True Cons.IH[of "Suc i"] f
      by (auto simp: walked_Cons Let_def split: list.splits simp del: upt_Suc)
  qed
qed

section \<open>Properties of splitFullAndPartialTransfer\<close>

text \<open>
  Claim C7. Under the strategy \<open>ForceInBounds\<close>, \<open>splitFullAndPartialTransfer\<close>
  returns success for every transfer operation; it creates no operation, and the
  operation differs from before only in its \<^verbatim>\<open>in_bounds\<close> array, which is all true.
\<close>

theorem forceInBounds_only_sets_flags:
  "splitFullAndPartialTransfer ext parents xferOp ForceInBounds ifOp =
     Inr (success,
          \<lparr>created = [], createdInScope = [],
           root = xferOp\<lparr>attrs := (attrs xferOp)\<lparr>in_bounds := Some (replicate (getTransferRank xferOp) True)\<rparr>\<rparr>,
           erased = False\<rparr>,
          ifOp)"
  by (simp add: splitFullAndPartialTransfer_def unchanged_def setInBounds_def)

text \<open>
  Claim C9. Under the strategy \<open>None\<close>, \<open>splitFullAndPartialTransfer\<close> returns
  failure for every operation and every chain of ancestors, whatever the precondition,
  the mask or the bounds would give, and changes nothing.
\<close>

theorem splitNone_fails_at_once:
  "splitFullAndPartialTransfer ext parents xferOp SplitNone ifOp = Inr (failure, unchanged xferOp, ifOp)"
  by (simp add: splitFullAndPartialTransfer_def)

section \<open>The shape of what the builders emit\<close>

lemma createInBoundsCond_None_builder:
  assumes "createInBoundsCond dyn b x = Inr (None, b')"
  shows "b' = b"
proof -
  have m: "isMinorIdentity (permutation_map (attrs x))"
    using assms by (auto simp: createInBoundsCond_def split: if_splits)
  from createInBoundsCond_structure[OF m, of dyn b] assms show ?thesis by auto
qed

lemma fold_intersectionStep:
  "fold (\<lambda>r. intersectionStep x alloc r (getLeadingShapedRank x + r)) rs (sizes, b) =
     (sizes @ map (\<lambda>r. Val (overlapSize x alloc r)) rs,
      b @ concat (map (\<lambda>r. [DimOp (source x) (getLeadingShapedRank x + r), DimOp alloc r,
                              overlapSize x alloc r]) rs))"
  by (induction rs arbitrary: sizes b)
     (simp_all add: intersectionStep_def create_def overlapSize_def Let_def)

lemma createSubViewIntersection_structure:
  assumes "getType alloc = Some t" "getRank t = getRank (shapedType (attrs x))"
  shows "createSubViewIntersection b x alloc =
     Inr ((SubViewOp (if isaWrite x then alloc else source x) (map Val (indices x))
             (overlapSizes x alloc) (replicate (getRank (shapedType (attrs x))) (Attr 1)),
           SubViewOp (if isaWrite x then source x else alloc)
             (replicate (getRank (shapedType (attrs x))) (Attr 0))
             (overlapSizes x alloc) (replicate (getRank (shapedType (attrs x))) (Attr 1))),
          b @ concat (map (\<lambda>r. [DimOp (source x) (getLeadingShapedRank x + r), DimOp alloc r,
                              overlapSize x alloc r]) [0..<getTransferRank x]) @
          [SubViewOp (if isaWrite x then alloc else source x) (map Val (indices x))
             (overlapSizes x alloc) (replicate (getRank (shapedType (attrs x))) (Attr 1)),
           SubViewOp (if isaWrite x then source x else alloc)
             (replicate (getRank (shapedType (attrs x))) (Attr 0))
             (overlapSizes x alloc) (replicate (getRank (shapedType (attrs x))) (Attr 1))])"
  using assms
  by (simp add: createSubViewIntersection_def zipResultAndIndexing_def fold_intersectionStep
      create_def overlapSizes_def Let_def)

lemma createSubViewIntersection_error:
  "createSubViewIntersection b x alloc = Inr r \<Longrightarrow>
   \<exists>t. getType alloc = Some t \<and> getRank t = getRank (shapedType (attrs x))"
  by (auto simp: createSubViewIntersection_def Let_def split: option.splits if_splits)

lemma plainOp_intersection:
  "list_all plainOp (concat (map (\<lambda>r. [DimOp (source x) (getLeadingShapedRank x + r), DimOp alloc r,
                              overlapSize x alloc r]) rs))"
  by (induction rs) (simp_all add: overlapSize_def Let_def)

lemma evalIndex_overlapSize:
  "evalIndex run (overlapSize x alloc r) =
     smin (extent run (source x) (getLeadingShapedRank x + r) -
           evalIndex run (indices x ! (getLeadingShapedRank x + r)))
          (extent run alloc r)"
  by (simp add: overlapSize_def Let_def inferFromExprList_def)

lemma inBoundsCondStep_appends:
  "\<exists>ops. snd (inBoundsCondStep dyn x r i (c, b)) = b @ ops \<and> list_all plainOp ops"
  by (cases "constantOf (indices x ! i)"; cases c; cases "shape (shapedType (attrs x)) ! i = dyn")
     (simp_all add: inBoundsCondStep_def makeComposedFoldedAffineApply_def those_single
        getMixedSize_def getConstantIntValue_def Let_def create_def
        getValueOrCreateConstantIndexOp_def)

lemma fold_inBoundsCondStep_appends:
  "\<exists>ops. snd (fold (\<lambda>r. inBoundsCondStep dyn x r (g r)) rs (c, b)) = b @ ops \<and> list_all plainOp ops"
proof (induction rs arbitrary: c b)
  case Nil
  then show ?case by simp
next
  case (Cons r rs)
  obtain c1 b1 where s: "inBoundsCondStep dyn x r (g r) (c, b) = (c1, b1)" by fastforce
  obtain ops1 where o1: "b1 = b @ ops1" "list_all plainOp ops1"
    using inBoundsCondStep_appends[of dyn x r "g r" c b] s by auto
  obtain ops2 where o2: "snd (fold (\<lambda>r. inBoundsCondStep dyn x r (g r)) rs (c1, b1)) = b1 @ ops2"
    "list_all plainOp ops2"
    using Cons.IH[of c1 b1] by auto
  show ?case using s o1 o2 by (intro exI[of _ "ops1 @ ops2"]) simp
qed

lemma createInBoundsCond_plain:
  assumes "createInBoundsCond dyn [] x = Inr (c, b)"
  shows "list_all plainOp b"
proof -
  have "b = snd (fold (\<lambda>r. inBoundsCondStep dyn x r (getLeadingShapedRank x + r))
                  [0..<getTransferRank x] (None, []))"
    using assms by (auto simp: createInBoundsCond_def zipResultAndIndexing_def split: if_splits)
  then show ?thesis
    using fold_inBoundsCondStep_appends[of dyn x "\<lambda>r. getLeadingShapedRank x + r" "[0..<getTransferRank x]" None "[]"]
    by auto
qed

lemma getLocationToWriteFullVec_eq:
  "getLocationToWriteFullVec b x cond t alloc =
     (getResults (locationIf x cond t alloc), b @ [ConstantIndexOp 0, locationIf x cond t alloc])"
  by (simp add: getLocationToWriteFullVec_def create_def locationIf_def Let_def del: getResults.simps)

lemma createFullPartialVectorTransferWrite_eq:
  "createFullPartialVectorTransferWrite b x v cond alloc =
     b @ [ConstantIntOp 1 1, notInBounds cond, IfOp (notInBounds cond) (reissueRegion x v alloc) []]"
  by (simp add: createFullPartialVectorTransferWrite_def create_def notInBounds_def
      reissueRegion_def Let_def)

lemma createFullPartialLinalgCopyWrite_eq:
  assumes "createFullPartialLinalgCopyWrite b x cond alloc = Inr b'"
  shows "\<exists>ops copySrc copyDest.
           createSubViewIntersection [] x alloc = Inr ((copySrc, copyDest), ops) \<and>
           b' = b @ [ConstantIntOp 1 1, notInBounds cond,
                     IfOp (notInBounds cond) (ops @ [CopyOp copySrc copyDest, YieldOp []]) []]"
  using assms
  by (cases "createSubViewIntersection [] x alloc")
     (auto simp: createFullPartialLinalgCopyWrite_def create_def notInBounds_def bind_def Let_def)

lemma splitWrite_structure:
  assumes "splitWrite options x v ifOp b cond scope alloc t (replicate (getTransferRank x) True) = Inr (r, c, p)"
  shows "r = success \<and> p = ifOp \<and> root c = x \<and> erased c \<and> createdInScope c = [(scope, alloc)] \<and>
         (\<exists>secondThen.
            created c = b @ [ConstantIndexOp 0, locationIf x cond t alloc, firstClone x cond t alloc,
                             ConstantIntOp 1 1, notInBounds cond,
                             IfOp (notInBounds cond) secondThen []] \<and>
            (if options = VectorTransfer then secondThen = reissueRegion x v alloc
             else \<exists>ops copySrc copyDest.
                    createSubViewIntersection [] x alloc = Inr ((copySrc, copyDest), ops) \<and>
                    secondThen = ops @ [CopyOp copySrc copyDest, YieldOp []]))"
proof (cases "options = VectorTransfer")
  case True
  then show ?thesis
    using assms
    by (auto simp: splitWrite_def getLocationToWriteFullVec_eq createFullPartialVectorTransferWrite_eq
        create_def firstClone_def bind_def Let_def)
next
  case False
  let ?b2 = "b @ [ConstantIndexOp 0, locationIf x cond t alloc, firstClone x cond t alloc]"
  from assms False obtain b3 where
    l: "createFullPartialLinalgCopyWrite ?b2 x cond alloc = Inr b3"
    and rc: "r = success" "p = ifOp"
       "c = \<lparr>created = b3, createdInScope = [(scope, alloc)], root = x, erased = True\<rparr>"
    by (cases "createFullPartialLinalgCopyWrite ?b2 x cond alloc")
       (auto simp: splitWrite_def getLocationToWriteFullVec_eq create_def firstClone_def
          bind_def Let_def)
  from createFullPartialLinalgCopyWrite_eq[OF l] rc False show ?thesis by auto
qed

lemma splitRead_structure:
  assumes "splitRead options x pad ifOp b cond scope alloc t flags = Inr (r, c, p)"
  shows "r = success \<and> \<not> erased c \<and> createdInScope c = [(scope, alloc)] \<and>
         (\<exists>thenRegion elseRegion.
            created c = b @ [ConstantIndexOp 0, IfOp cond thenRegion elseRegion] \<and>
            p = storeIfOp ifOp (IfOp cond thenRegion elseRegion))"
proof (cases "options = VectorTransfer")
  case True
  then show ?thesis
    using assms
    by (auto simp: splitRead_def createFullPartialVectorTransferRead_def create_def bind_def Let_def)
next
  case False
  then show ?thesis
    using assms
    by (cases "createSubViewIntersection [FillOp pad alloc] x alloc")
       (auto simp: splitRead_def createFullPartialLinalgCopyRead_def create_def bind_def Let_def)
qed

lemma plainOp_no_clones:
  "list_all plainOp ops \<Longrightarrow> filter isTransferOp ops = [] \<and> concat (map regionsOf ops) = []"
proof (induction ops)
  case Nil
  then show ?case by simp
next
  case (Cons a ops)
  then show ?case by (cases a) simp_all
qed

lemma fastPathRegion_no_clones: "filter isTransferOp (fastPathRegion x t) = []"
  by (simp add: fastPathRegion_def create_def Let_def)

section \<open>Failure paths\<close>

lemma split_inversion:
  assumes "options = VectorTransfer \<or> options = LinalgCopy"
    and "splitFullAndPartialTransfer ext parents x options ifOp = Inr (r, c, p)"
  shows "splitFullAndPartialTransferPrecondition parents x = Inr success \<and>
    ((r = failure \<and> c = unchanged x \<and> p = ifOp \<and>
        (kind x = OtherTransferOp \<or> getMask x \<noteq> None \<or>
         createInBoundsCond (kDynamic ext) [] x = Inr (None, []))) \<or>
     (\<exists>cond b scope.
        kind x \<noteq> OtherTransferOp \<and> getMask x = None \<and>
        createInBoundsCond (kDynamic ext) [] x = Inr (Some cond, b) \<and>
        getAutomaticAllocationScope parents = Inr scope \<and> numRegions (parents ! scope) = 1 \<and>
        ((getCastCompatibleMemRefType ext (shapedType (attrs x)) (allocType x) = Inr None \<and>
          r = failure \<and> p = ifOp \<and>
          c = \<lparr>created = b, createdInScope = [(scope, AllocaOp (allocType x) 32)],
               root = x, erased = False\<rparr>) \<or>
         (\<exists>t. getCastCompatibleMemRefType ext (shapedType (attrs x)) (allocType x) = Inr (Some t) \<and>
            (case kind x of
               TransferReadOp pad \<Rightarrow>
                 splitRead options x pad ifOp b cond scope (AllocaOp (allocType x) 32) t
                   (replicate (getTransferRank x) True) = Inr (r, c, p)
             | TransferWriteOp v \<Rightarrow>
                 splitWrite options x v ifOp b cond scope (AllocaOp (allocType x) 32) t
                   (replicate (getTransferRank x) True) = Inr (r, c, p)
             | OtherTransferOp \<Rightarrow> False)))))"
proof -
  have o: "options \<noteq> SplitNone" "options \<noteq> ForceInBounds" using assms(1) by auto
  have pre: "splitFullAndPartialTransferPrecondition parents x = Inr success"
    using assms(2) o by (auto simp: splitFullAndPartialTransfer_def Let_def split: if_splits)
  show ?thesis
  proof (cases "kind x = OtherTransferOp \<or> getMask x \<noteq> None")
    case True
    then show ?thesis using assms(2) o pre
      by (auto simp: splitFullAndPartialTransfer_def Let_def split: if_splits)
  next
    case False
    then have k: "kind x \<noteq> OtherTransferOp" "getMask x = None" by auto
    obtain mc b where cb: "createInBoundsCond (kDynamic ext) [] x = Inr (mc, b)"
      using assms(2) o pre k
      by (cases "createInBoundsCond (kDynamic ext) [] x")
         (auto simp: splitFullAndPartialTransfer_def Let_def bind_def)
    show ?thesis
    proof (cases mc)
      case None
      then have "b = []" using cb createInBoundsCond_None_builder by blast
      then show ?thesis using assms(2) o pre k cb None
        by (auto simp: splitFullAndPartialTransfer_def Let_def bind_def unchanged_def)
    next
      case (Some cond)
      obtain scope where sc: "getAutomaticAllocationScope parents = Inr scope"
        using assms(2) o pre k cb Some
        by (cases "getAutomaticAllocationScope parents")
           (auto simp: splitFullAndPartialTransfer_def Let_def bind_def)
      have nr: "numRegions (parents ! scope) = 1"
        using assms(2) o pre k cb Some sc
        by (auto simp: splitFullAndPartialTransfer_def Let_def bind_def split: if_splits)
      obtain mt where g: "getCastCompatibleMemRefType ext (shapedType (attrs x)) (allocType x) = Inr mt"
        using assms(2) o pre k cb Some sc nr
        by (cases "getCastCompatibleMemRefType ext (shapedType (attrs x)) (allocType x)")
           (auto simp: splitFullAndPartialTransfer_def Let_def bind_def)
      show ?thesis
        using assms(2) o pre k cb Some sc nr g
        by (cases mt; cases "kind x")
           (auto simp: splitFullAndPartialTransfer_def Let_def bind_def)
    qed
  qed
qed

lemma precondition_failure:
  assumes "getTransferRank x = 0 \<or> \<not> isMinorIdentity (permutation_map (attrs x)) \<or>
           \<not> hasOutOfBoundsDim x \<or> (\<exists>parent rest. parents = parent # rest \<and> opName parent = ScfIfOp)"
  shows "splitFullAndPartialTransferPrecondition parents x = Inr failure"
  using assms by (auto simp: splitFullAndPartialTransferPrecondition_def)

lemma split_failure:
  assumes "splitFullAndPartialTransfer ext parents x options ifOp = Inr (failure, c, p)"
  shows "c = unchanged x \<or>
      (\<exists>cond b scope. createInBoundsCond (kDynamic ext) [] x = Inr (Some cond, b) \<and>
         getAutomaticAllocationScope parents = Inr scope \<and>
         getCastCompatibleMemRefType ext (shapedType (attrs x)) (allocType x) = Inr None \<and>
         c = \<lparr>created = b, createdInScope = [(scope, AllocaOp (allocType x) 32)],
              root = x, erased = False\<rparr>)"
proof (cases "options = VectorTransfer \<or> options = LinalgCopy")
  case False
  then have "options = SplitNone \<or> options = ForceInBounds" by (cases options) auto
  then show ?thesis using assms by (auto simp: splitFullAndPartialTransfer_def Let_def)
next
  case True
  note inv = split_inversion[OF True assms]
  have nr: "splitRead options x pad ifOp b cond scope alloc t flags \<noteq> Inr (failure, c, p)"
    for pad b cond scope alloc t flags
    using splitRead_structure[of options x pad ifOp b cond scope alloc t flags failure c p] by auto
  have nw: "splitWrite options x v ifOp b cond scope alloc t (replicate (getTransferRank x) True) \<noteq> Inr (failure, c, p)"
    for v b cond scope alloc t
    using splitWrite_structure[of options x v ifOp b cond scope alloc t failure c p] by auto
  from inv nr nw show ?thesis
    by (cases "kind x") auto
qed

lemma asRootChange_unchanged: "asRootChange (unchanged x) = unchanged (TransferOperation x)"
  by (simp add: asRootChange_def unchanged_def)

lemma matchAndRewrite_failure:
  assumes "matchAndRewrite ext options filterFn parents operation = Inr (failure, c')"
  shows "c' = unchanged operation \<or>
      (\<exists>x cond b scope. operation = TransferOperation x \<and>
         createInBoundsCond (kDynamic ext) [] x = Inr (Some cond, b) \<and>
         getAutomaticAllocationScope parents = Inr scope \<and>
         getCastCompatibleMemRefType ext (shapedType (attrs x)) (allocType x) = Inr None \<and>
         c' = \<lparr>created = b, createdInScope = [(scope, AllocaOp (allocType x) 32)],
               root = operation, erased = False\<rparr>)"
proof (cases operation)
  case (OtherOperation n)
  then show ?thesis using assms by (simp add: matchAndRewrite_def)
next
  case (TransferOperation x)
  show ?thesis
  proof (cases "splitFullAndPartialTransferPrecondition parents x")
    case (Inl e)
    then show ?thesis using assms TransferOperation by (simp add: matchAndRewrite_def bind_def)
  next
    case (Inr pre)
    show ?thesis
    proof (cases "pre = failure \<or> filterFn x = failure")
      case True
      then show ?thesis using assms TransferOperation Inr
        by (auto simp: matchAndRewrite_def bind_def)
    next
      case False
      then obtain c p where s: "splitFullAndPartialTransfer ext parents x options None = Inr (failure, c, p)"
        and c': "c' = asRootChange c"
        using assms TransferOperation Inr
        by (cases "splitFullAndPartialTransfer ext parents x options None")
           (auto simp: matchAndRewrite_def bind_def)
      from split_failure[OF s] show ?thesis
      proof
        assume "c = unchanged x"
        then show ?thesis using c' TransferOperation by (simp add: asRootChange_unchanged)
      next
        assume "\<exists>cond b scope. createInBoundsCond (kDynamic ext) [] x = Inr (Some cond, b) \<and>
         getAutomaticAllocationScope parents = Inr scope \<and>
         getCastCompatibleMemRefType ext (shapedType (attrs x)) (allocType x) = Inr None \<and>
         c = \<lparr>created = b, createdInScope = [(scope, AllocaOp (allocType x) 32)],
              root = x, erased = False\<rparr>"
        then obtain cond b scope where
          "createInBoundsCond (kDynamic ext) [] x = Inr (Some cond, b)"
          "getAutomaticAllocationScope parents = Inr scope"
          "getCastCompatibleMemRefType ext (shapedType (attrs x)) (allocType x) = Inr None"
          "c = \<lparr>created = b, createdInScope = [(scope, AllocaOp (allocType x) 32)],
              root = x, erased = False\<rparr>"
          by blast
        then show ?thesis using c' TransferOperation by (simp add: asRootChange_def)
      qed
    qed
  qed
qed

lemma matchAndRewrite_rejects:
  assumes "splitFullAndPartialTransferPrecondition parents x = Inr failure"
  shows "matchAndRewrite ext options filterFn parents (TransferOperation x) =
           Inr (failure, unchanged (TransferOperation x))"
  using assms by (simp add: matchAndRewrite_def bind_def)

lemma split_mask_fails:
  assumes "options = VectorTransfer \<or> options = LinalgCopy"
    "splitFullAndPartialTransferPrecondition parents x = Inr success" "getMask x \<noteq> None"
  shows "splitFullAndPartialTransfer ext parents x options ifOp = Inr (failure, unchanged x, ifOp)"
proof -
  have o: "options \<noteq> SplitNone" "options \<noteq> ForceInBounds" using assms(1) by auto
  show ?thesis using o assms(2,3) by (simp add: splitFullAndPartialTransfer_def Let_def)
qed

lemma split_folded_fails:
  assumes "options = VectorTransfer \<or> options = LinalgCopy"
    "splitFullAndPartialTransferPrecondition parents x = Inr success"
    "\<forall>r < getTransferRank x. \<not> isDimInBounds x r \<longrightarrow> foldsAway (kDynamic ext) x r"
  shows "splitFullAndPartialTransfer ext parents x options ifOp = Inr (failure, unchanged x, ifOp)"
proof -
  have m: "isMinorIdentity (permutation_map (attrs x))"
    using assms(2) by (auto simp: splitFullAndPartialTransferPrecondition_def split: if_splits)
  have "checkedDims (kDynamic ext) x = []"
    using assms(3) by (auto simp: checkedDims_def filter_empty_conv)
  then have "createInBoundsCond (kDynamic ext) [] x = Inr (None, [])"
    using createInBoundsCond_structure[OF m, of "kDynamic ext" "[]"] by (auto simp: conjunction_def)
  moreover have "options \<noteq> SplitNone" "options \<noteq> ForceInBounds" using assms(1) by auto
  ultimately show ?thesis
    using assms(2) by (simp add: splitFullAndPartialTransfer_def Let_def bind_def unchanged_def)
qed

text \<open>
  Claim C3, as amended. Whenever \<open>splitFullAndPartialTransfer\<close> or the pattern returns
  failure, either nothing was created or modified, or the failure is that of
  \<open>getCastCompatibleMemRefType\<close>: then the operations of the bounds condition and the
  scratch alloca have been created, and the transfer operation itself is as before. The
  pattern returns failure and changes nothing for a zero transfer rank, a map that is
  not a minor identity, no out-of-bounds dimension and a parent that is a conditional;
  the function returns failure and changes nothing for a mask and for a bounds
  condition that folds away entirely.
\<close>

theorem failure_changes_nothing_before_unification:
  "(splitFullAndPartialTransfer ext parents x options ifOp = Inr (failure, c, p) \<longrightarrow>
      c = unchanged x \<or>
      (\<exists>cond b scope. createInBoundsCond (kDynamic ext) [] x = Inr (Some cond, b) \<and>
         getAutomaticAllocationScope parents = Inr scope \<and>
         getCastCompatibleMemRefType ext (shapedType (attrs x)) (allocType x) = Inr None \<and>
         c = \<lparr>created = b, createdInScope = [(scope, AllocaOp (allocType x) 32)],
              root = x, erased = False\<rparr>)) \<and>
   (matchAndRewrite ext options filterFn parents operation = Inr (failure, c') \<longrightarrow>
      c' = unchanged operation \<or>
      (\<exists>y cond b scope. operation = TransferOperation y \<and>
         createInBoundsCond (kDynamic ext) [] y = Inr (Some cond, b) \<and>
         getAutomaticAllocationScope parents = Inr scope \<and>
         getCastCompatibleMemRefType ext (shapedType (attrs y)) (allocType y) = Inr None \<and>
         c' = \<lparr>created = b, createdInScope = [(scope, AllocaOp (allocType y) 32)],
               root = operation, erased = False\<rparr>)) \<and>
   (getTransferRank x = 0 \<or> \<not> isMinorIdentity (permutation_map (attrs x)) \<or>
    \<not> hasOutOfBoundsDim x \<or> (\<exists>parent rest. parents = parent # rest \<and> opName parent = ScfIfOp) \<longrightarrow>
      matchAndRewrite ext options filterFn parents (TransferOperation x) =
        Inr (failure, unchanged (TransferOperation x))) \<and>
   ((options = VectorTransfer \<or> options = LinalgCopy) \<and>
    splitFullAndPartialTransferPrecondition parents x = Inr success \<and>
    (getMask x \<noteq> None \<or>
     (\<forall>r < getTransferRank x. \<not> isDimInBounds x r \<longrightarrow> foldsAway (kDynamic ext) x r)) \<longrightarrow>
      splitFullAndPartialTransfer ext parents x options ifOp = Inr (failure, unchanged x, ifOp))"
proof (intro conjI impI)
  assume "splitFullAndPartialTransfer ext parents x options ifOp = Inr (failure, c, p)"
  then show "c = unchanged x \<or>
      (\<exists>cond b scope. createInBoundsCond (kDynamic ext) [] x = Inr (Some cond, b) \<and>
         getAutomaticAllocationScope parents = Inr scope \<and>
         getCastCompatibleMemRefType ext (shapedType (attrs x)) (allocType x) = Inr None \<and>
         c = \<lparr>created = b, createdInScope = [(scope, AllocaOp (allocType x) 32)],
              root = x, erased = False\<rparr>)"
    by (rule split_failure)
next
  assume "matchAndRewrite ext options filterFn parents operation = Inr (failure, c')"
  then show "c' = unchanged operation \<or>
      (\<exists>y cond b scope. operation = TransferOperation y \<and>
         createInBoundsCond (kDynamic ext) [] y = Inr (Some cond, b) \<and>
         getAutomaticAllocationScope parents = Inr scope \<and>
         getCastCompatibleMemRefType ext (shapedType (attrs y)) (allocType y) = Inr None \<and>
         c' = \<lparr>created = b, createdInScope = [(scope, AllocaOp (allocType y) 32)],
               root = operation, erased = False\<rparr>)"
    by (rule matchAndRewrite_failure)
next
  assume "getTransferRank x = 0 \<or> \<not> isMinorIdentity (permutation_map (attrs x)) \<or>
    \<not> hasOutOfBoundsDim x \<or> (\<exists>parent rest. parents = parent # rest \<and> opName parent = ScfIfOp)"
  then show "matchAndRewrite ext options filterFn parents (TransferOperation x) =
        Inr (failure, unchanged (TransferOperation x))"
    using matchAndRewrite_rejects[OF precondition_failure] by simp
next
  assume "(options = VectorTransfer \<or> options = LinalgCopy) \<and>
    splitFullAndPartialTransferPrecondition parents x = Inr success \<and>
    (getMask x \<noteq> None \<or>
     (\<forall>r < getTransferRank x. \<not> isDimInBounds x r \<longrightarrow> foldsAway (kDynamic ext) x r))"
  then have o: "options = VectorTransfer \<or> options = LinalgCopy"
    and pre: "splitFullAndPartialTransferPrecondition parents x = Inr success"
    and d: "getMask x \<noteq> None \<or>
     (\<forall>r < getTransferRank x. \<not> isDimInBounds x r \<longrightarrow> foldsAway (kDynamic ext) x r)"
    by simp_all
  from d show "splitFullAndPartialTransfer ext parents x options ifOp = Inr (failure, unchanged x, ifOp)"
  proof
    assume "getMask x \<noteq> None"
    then show ?thesis using split_mask_fails[OF o pre] by simp
  next
    assume "\<forall>r < getTransferRank x. \<not> isDimInBounds x r \<longrightarrow> foldsAway (kDynamic ext) x r"
    then show ?thesis using split_folded_fails[OF o pre] by simp
  qed
qed

text \<open>
  The claim as stated fails at a read whose source is not strided: the call returns
  failure after it has created the three operations of the bounds condition and the
  alloca in the function, directly and through the pattern.
\<close>

theorem unification_failure_leaves_operations:
  "splitFullAndPartialTransfer sampleExternals loopNest unstridedRead LinalgCopy None =
     Inr (failure,
          \<lparr>created = [sum1D, DimOp (Arg 0) 0, cond1D], createdInScope = [(2, alloc4)],
           root = unstridedRead, erased = False\<rparr>,
          None) \<and>
   matchAndRewrite sampleExternals LinalgCopy acceptAll loopNest (TransferOperation unstridedRead) =
     Inr (failure,
          \<lparr>created = [sum1D, DimOp (Arg 0) 0, cond1D], createdInScope = [(2, alloc4)],
           root = TransferOperation unstridedRead, erased = False\<rparr>) \<and>
   \<lparr>created = [sum1D, DimOp (Arg 0) 0, cond1D], createdInScope = [(2, alloc4)],
    root = unstridedRead, erased = False\<rparr> \<noteq> unchanged unstridedRead"
  by code_simp

text \<open>
  The amended claim at the samples: the read that is not strided, directly and through
  the pattern, a read directly under a conditional, and a read with a mask.
\<close>

theorem failure_changes_nothing_before_unification_witness:
  "splitFullAndPartialTransfer sampleExternals loopNest unstridedRead VectorTransfer None =
     Inr (failure,
          \<lparr>created = [sum1D, DimOp (Arg 0) 0, cond1D], createdInScope = [(2, alloc4)],
           root = unstridedRead, erased = False\<rparr>,
          None) \<and>
   getCastCompatibleMemRefType sampleExternals (shapedType (attrs unstridedRead))
     (allocType unstridedRead) = Inr None \<and>
   matchAndRewrite sampleExternals VectorTransfer acceptAll loopNest (TransferOperation unstridedRead) =
     Inr (failure,
          \<lparr>created = [sum1D, DimOp (Arg 0) 0, cond1D], createdInScope = [(2, alloc4)],
           root = TransferOperation unstridedRead, erased = False\<rparr>) \<and>
   matchAndRewrite sampleExternals LinalgCopy acceptAll underIf (TransferOperation read1D) =
     Inr (failure, unchanged (TransferOperation read1D)) \<and>
   splitFullAndPartialTransferPrecondition loopNest maskedRead = Inr success \<and>
   splitFullAndPartialTransfer sampleExternals loopNest maskedRead LinalgCopy None =
     Inr (failure, unchanged maskedRead, None)"
proof -
  let ?c = "\<lparr>created = [sum1D, DimOp (Arg 0) 0, cond1D], createdInScope = [(2, alloc4)],
           root = unstridedRead, erased = False\<rparr>"
  let ?c' = "\<lparr>created = [sum1D, DimOp (Arg 0) 0, cond1D], createdInScope = [(2, alloc4)],
           root = TransferOperation unstridedRead, erased = False\<rparr>"
  note t1 = failure_changes_nothing_before_unification[where ext = sampleExternals
      and parents = loopNest and x = unstridedRead and options = VectorTransfer and ifOp = None
      and c = ?c and p = None, THEN conjunct1]
  note t2 = failure_changes_nothing_before_unification[where ext = sampleExternals
      and parents = loopNest and options = VectorTransfer and filterFn = acceptAll
      and operation = "TransferOperation unstridedRead" and c' = ?c',
      THEN conjunct2, THEN conjunct1]
  note t3 = failure_changes_nothing_before_unification[where ext = sampleExternals
      and parents = underIf and x = read1D and options = LinalgCopy and filterFn = acceptAll,
      THEN conjunct2, THEN conjunct2, THEN conjunct1]
  note t4 = failure_changes_nothing_before_unification[where ext = sampleExternals
      and parents = loopNest and x = maskedRead and options = LinalgCopy and ifOp = None,
      THEN conjunct2, THEN conjunct2, THEN conjunct2]
  have e1: "splitFullAndPartialTransfer sampleExternals loopNest unstridedRead VectorTransfer None =
     Inr (failure, ?c, None)" by code_simp
  have n1: "?c \<noteq> unchanged unstridedRead" by code_simp
  have g: "getCastCompatibleMemRefType sampleExternals (shapedType (attrs unstridedRead))
     (allocType unstridedRead) = Inr None"
    using t1 e1 n1 by blast
  have e2: "matchAndRewrite sampleExternals VectorTransfer acceptAll loopNest
              (TransferOperation unstridedRead) = Inr (failure, ?c')" by code_simp
  have n2: "?c' \<noteq> unchanged (TransferOperation unstridedRead)" by code_simp
  have g2: "\<exists>y cond b scope. TransferOperation unstridedRead = TransferOperation y \<and>
         createInBoundsCond (kDynamic sampleExternals) [] y = Inr (Some cond, b) \<and>
         getAutomaticAllocationScope loopNest = Inr scope \<and>
         getCastCompatibleMemRefType sampleExternals (shapedType (attrs y)) (allocType y) = Inr None \<and>
         ?c' = \<lparr>created = b, createdInScope = [(scope, AllocaOp (allocType y) 32)],
               root = TransferOperation unstridedRead, erased = False\<rparr>"
    using t2 e2 n2 by blast
  have i: "\<exists>parent rest. underIf = parent # rest \<and> opName parent = ScfIfOp"
    by (simp add: underIf_def)
  have m: "matchAndRewrite sampleExternals LinalgCopy acceptAll underIf (TransferOperation read1D) =
     Inr (failure, unchanged (TransferOperation read1D))"
    using t3 i by blast
  have pre: "splitFullAndPartialTransferPrecondition loopNest maskedRead = Inr success" by code_simp
  have k: "getMask maskedRead \<noteq> None" by (simp add: maskedRead_def)
  have s: "splitFullAndPartialTransfer sampleExternals loopNest maskedRead LinalgCopy None =
     Inr (failure, unchanged maskedRead, None)"
    using t4 pre k by blast
  show ?thesis using e1 g e2 g2 m pre s by simp
qed

section \<open>The out-parameter\<close>

text \<open>
  Claim C10. A call that returns failure, a call under \<open>ForceInBounds\<close> and a
  successful split of a write leave the out-parameter as it was. A successful split of
  a read stores the conditional it created, the one guarded by the bounds condition,
  when the pointer is not null.
\<close>

theorem ifOp_set_for_read_only:
  assumes "splitFullAndPartialTransfer ext parents x options ifOp = Inr (r, c, p)"
  shows "(r = failure \<longrightarrow> p = ifOp) \<and>
     (options = ForceInBounds \<longrightarrow> p = ifOp) \<and>
     (r = success \<and> isaWrite x \<longrightarrow> p = ifOp) \<and>
     (r = success \<and> options \<noteq> ForceInBounds \<and> (\<exists>pad. kind x = TransferReadOp pad) \<longrightarrow>
        (\<exists>cond b thenRegion elseRegion.
            createInBoundsCond (kDynamic ext) [] x = Inr (Some cond, b) \<and>
            created c = b @ [ConstantIndexOp 0, IfOp cond thenRegion elseRegion] \<and>
            (ifOp = None \<longrightarrow> p = None) \<and>
            (ifOp \<noteq> None \<longrightarrow> p = Some (Some (IfOp cond thenRegion elseRegion)))))"
proof (cases "options = VectorTransfer \<or> options = LinalgCopy")
  case False
  then have "options = SplitNone \<or> options = ForceInBounds" by (cases options) auto
  then show ?thesis using assms by (auto simp: splitFullAndPartialTransfer_def Let_def)
next
  case True
  then have o: "options \<noteq> ForceInBounds" by auto
  note inv = split_inversion[OF True assms]
  show ?thesis
  proof (cases "kind x")
    case OtherTransferOp
    then show ?thesis using inv o by (auto simp: isaWrite_def)
  next
    case (TransferWriteOp v)
    have "p = ifOp"
      using inv TransferWriteOp splitWrite_structure[of options x v ifOp _ _ _ _ _ r c p] by auto
    then show ?thesis using TransferWriteOp o by simp
  next
    case (TransferReadOp pad)
    have w: "\<not> isaWrite x" using TransferReadOp by (simp add: isaWrite_def)
    from inv consider (fail) "r = failure" "p = ifOp"
      | (read) cond b scope t where "createInBoundsCond (kDynamic ext) [] x = Inr (Some cond, b)"
          "splitRead options x pad ifOp b cond scope (AllocaOp (allocType x) 32) t
             (replicate (getTransferRank x) True) = Inr (r, c, p)"
      using TransferReadOp by auto
    then show ?thesis
    proof cases
      case fail
      then show ?thesis using o w by simp
    next
      case read
      from splitRead_structure[OF read(2)] obtain thenRegion elseRegion where
        s: "r = success" "created c = b @ [ConstantIndexOp 0, IfOp cond thenRegion elseRegion]"
           "p = storeIfOp ifOp (IfOp cond thenRegion elseRegion)"
        by auto
      have "(ifOp = None \<longrightarrow> p = None) \<and>
            (ifOp \<noteq> None \<longrightarrow> p = Some (Some (IfOp cond thenRegion elseRegion)))"
        using s(3) by (cases ifOp) (simp_all add: storeIfOp_def)
      then show ?thesis using s read(1) o w by blast
    qed
  qed
qed

lemma read1D_split:
  "splitFullAndPartialTransfer sampleExternals loopNest read1D LinalgCopy (Some None) =
     Inr (success,
          \<lparr>created = [sum1D, DimOp (Arg 0) 0, cond1D, ConstantIndexOp 0, readIf1D],
           createdInScope = [(2, alloc4)],
           root = read1D\<lparr>attrs := (attrs read1D)\<lparr>in_bounds := Some [True]\<rparr>,
                         source := OpResult readIf1D 0, indices := [OpResult readIf1D 1]\<rparr>,
           erased = False\<rparr>,
          Some (Some readIf1D))"
  by code_simp


text \<open>
  At the samples: the read, the write, the read with a mask, and the read under
  \<open>ForceInBounds\<close>.
\<close>

theorem ifOp_set_for_read_only_witness:
  "splitFullAndPartialTransfer sampleExternals loopNest read1D LinalgCopy (Some None) =
     Inr (success,
          \<lparr>created = [sum1D, DimOp (Arg 0) 0, cond1D, ConstantIndexOp 0, readIf1D],
           createdInScope = [(2, alloc4)],
           root = read1D\<lparr>attrs := (attrs read1D)\<lparr>in_bounds := Some [True]\<rparr>,
                         source := OpResult readIf1D 0, indices := [OpResult readIf1D 1]\<rparr>,
           erased = False\<rparr>,
          Some (Some readIf1D)) \<and>
   (\<exists>cond b thenRegion elseRegion.
      createInBoundsCond (kDynamic sampleExternals) [] read1D = Inr (Some cond, b) \<and>
      [sum1D, DimOp (Arg 0) 0, cond1D, ConstantIndexOp 0, readIf1D] =
        b @ [ConstantIndexOp 0, IfOp cond thenRegion elseRegion]) \<and>
   ifOpOf (splitFullAndPartialTransfer sampleExternals loopNest write1D LinalgCopy (Some None)) =
     Some (Some None) \<and>
   ifOpOf (splitFullAndPartialTransfer sampleExternals loopNest maskedRead LinalgCopy (Some None)) =
     Some (Some None) \<and>
   ifOpOf (splitFullAndPartialTransfer sampleExternals loopNest read1D ForceInBounds (Some None)) =
     Some (Some None)"
proof -
  have k: "kind read1D = TransferReadOp (Arg 3)" by (simp add: read1D_def transfer1D_def)
  have a: "\<exists>cond b thenRegion elseRegion.
      createInBoundsCond (kDynamic sampleExternals) [] read1D = Inr (Some cond, b) \<and>
      [sum1D, DimOp (Arg 0) 0, cond1D, ConstantIndexOp 0, readIf1D] =
        b @ [ConstantIndexOp 0, IfOp cond thenRegion elseRegion]"
    using ifOp_set_for_read_only[OF read1D_split] k by auto
  have rw: "resultOf (splitFullAndPartialTransfer sampleExternals loopNest write1D LinalgCopy (Some None)) = Some success"
    by code_simp
  then obtain c p where w: "splitFullAndPartialTransfer sampleExternals loopNest write1D LinalgCopy (Some None) = Inr (success, c, p)"
    by (auto simp: resultOf_def split: sum.splits)
  have "isaWrite write1D" by (simp add: write1D_def transfer1D_def isaWrite_def)
  then have "p = Some None" using ifOp_set_for_read_only[OF w] by simp
  then have b: "ifOpOf (splitFullAndPartialTransfer sampleExternals loopNest write1D LinalgCopy (Some None)) = Some (Some None)"
    using w by (simp add: ifOpOf_def)
  have rf: "resultOf (splitFullAndPartialTransfer sampleExternals loopNest maskedRead LinalgCopy (Some None)) = Some failure"
    by code_simp
  then obtain c' p' where f: "splitFullAndPartialTransfer sampleExternals loopNest maskedRead LinalgCopy (Some None) = Inr (failure, c', p')"
    by (auto simp: resultOf_def split: sum.splits)
  have "p' = Some None" using ifOp_set_for_read_only[OF f] by simp
  then have c: "ifOpOf (splitFullAndPartialTransfer sampleExternals loopNest maskedRead LinalgCopy (Some None)) = Some (Some None)"
    using f by (simp add: ifOpOf_def)
  have rg: "resultOf (splitFullAndPartialTransfer sampleExternals loopNest read1D ForceInBounds (Some None)) = Some success"
    by code_simp
  then obtain c'' p'' where g: "splitFullAndPartialTransfer sampleExternals loopNest read1D ForceInBounds (Some None) = Inr (success, c'', p'')"
    by (auto simp: resultOf_def split: sum.splits)
  have "p'' = Some None" using ifOp_set_for_read_only[OF g] by simp
  then have d: "ifOpOf (splitFullAndPartialTransfer sampleExternals loopNest read1D ForceInBounds (Some None)) = Some (Some None)"
    using g by (simp add: ifOpOf_def)
  show ?thesis using read1D_split a b c d by simp
qed

section \<open>The allocation scope\<close>

lemma getAutomaticAllocationScope_char:
  "getAutomaticAllocationScope parents =
     (case filter (\<lambda>j. hasAutomaticAllocationScope (parents ! j)) (rev [0..<length (walked parents)]) of
        [] \<Rightarrow> Inl AssertionFailure
      | scope # others \<Rightarrow> Inr scope)"
  by (simp add: getAutomaticAllocationScope_def scopeWalk_char split: list.splits)

lemma two_loops_in_function:
  assumes "isLoop l1" "isLoop l2" "\<not> isLoop f" "hasAutomaticAllocationScope f"
  shows "getAutomaticAllocationScope (l1 # l2 # f # rest) = Inr 2"
  using assms by (simp add: getAutomaticAllocationScope_def Let_def)

lemma split_allocates_in_scope:
  assumes "options = VectorTransfer \<or> options = LinalgCopy"
    "splitFullAndPartialTransfer ext parents x options ifOp = Inr (success, c, p)"
  shows "\<exists>scope. getAutomaticAllocationScope parents = Inr scope \<and>
           createdInScope c = [(scope, AllocaOp (allocType x) 32)]"
proof -
  note inv = split_inversion[OF assms]
  show ?thesis
  proof (cases "kind x")
    case OtherTransferOp
    then show ?thesis using inv by auto
  next
    case (TransferWriteOp v)
    then show ?thesis
      using inv splitWrite_structure[of options x v ifOp _ _ _ _ _ success c p] by auto
  next
    case (TransferReadOp pad)
    then show ?thesis
      using inv splitRead_structure[of options x pad ifOp _ _ _ _ _ _ success c p] by auto
  qed
qed

lemma split_without_scope:
  assumes "options = VectorTransfer \<or> options = LinalgCopy"
    "getAutomaticAllocationScope parents = Inl AssertionFailure"
    "kind x \<noteq> OtherTransferOp" "getMask x = None"
    "createInBoundsCond (kDynamic ext) [] x = Inr (Some cond, b)"
  shows "splitFullAndPartialTransfer ext parents x options ifOp = Inl AssertionFailure"
proof -
  have o: "options \<noteq> SplitNone" "options \<noteq> ForceInBounds" using assms(1) by auto
  show ?thesis using o assms(2-5)
    by (simp add: splitFullAndPartialTransfer_def Let_def bind_def)
qed

text \<open>
  Claim C8. \<open>getAutomaticAllocationScope\<close> returns the last ancestor with the trait
  \<^verbatim>\<open>AutomaticAllocationScope\<close> among the ancestors it walks, which are the loops next
  to the operation and the first ancestor that is not a loop; it fails an assertion when
  none of them has the trait. For two loops inside a function it returns the function.
  A successful split creates the alloca at the start of the scope found, and nowhere
  else; without a scope the call ends in the assertion and returns no result.
\<close>

theorem allocation_scope_walk:
  "getAutomaticAllocationScope parents =
     (case filter (\<lambda>j. hasAutomaticAllocationScope (parents ! j)) (rev [0..<length (walked parents)]) of
        [] \<Rightarrow> Inl AssertionFailure
      | scope # others \<Rightarrow> Inr scope) \<and>
   (isLoop l1 \<and> isLoop l2 \<and> \<not> isLoop f \<and> hasAutomaticAllocationScope f \<longrightarrow>
      getAutomaticAllocationScope (l1 # l2 # f # rest) = Inr 2) \<and>
   ((options = VectorTransfer \<or> options = LinalgCopy) \<and>
    splitFullAndPartialTransfer ext parents x options ifOp = Inr (success, c, p) \<longrightarrow>
      (\<exists>scope. getAutomaticAllocationScope parents = Inr scope \<and>
         createdInScope c = [(scope, AllocaOp (allocType x) 32)])) \<and>
   ((options = VectorTransfer \<or> options = LinalgCopy) \<and>
    getAutomaticAllocationScope parents = Inl AssertionFailure \<and>
    kind x \<noteq> OtherTransferOp \<and> getMask x = None \<and>
    createInBoundsCond (kDynamic ext) [] x = Inr (Some cond, b) \<longrightarrow>
      splitFullAndPartialTransfer ext parents x options ifOp = Inl AssertionFailure)"
proof (intro conjI impI)
  show "getAutomaticAllocationScope parents =
     (case filter (\<lambda>j. hasAutomaticAllocationScope (parents ! j)) (rev [0..<length (walked parents)]) of
        [] \<Rightarrow> Inl AssertionFailure
      | scope # others \<Rightarrow> Inr scope)"
    by (rule getAutomaticAllocationScope_char)
next
  assume "isLoop l1 \<and> isLoop l2 \<and> \<not> isLoop f \<and> hasAutomaticAllocationScope f"
  then show "getAutomaticAllocationScope (l1 # l2 # f # rest) = Inr 2"
    by (simp add: two_loops_in_function)
next
  assume "(options = VectorTransfer \<or> options = LinalgCopy) \<and>
    splitFullAndPartialTransfer ext parents x options ifOp = Inr (success, c, p)"
  then show "\<exists>scope. getAutomaticAllocationScope parents = Inr scope \<and>
         createdInScope c = [(scope, AllocaOp (allocType x) 32)]"
    using split_allocates_in_scope[of options ext parents x ifOp c p] by simp
next
  assume "(options = VectorTransfer \<or> options = LinalgCopy) \<and>
    getAutomaticAllocationScope parents = Inl AssertionFailure \<and>
    kind x \<noteq> OtherTransferOp \<and> getMask x = None \<and>
    createInBoundsCond (kDynamic ext) [] x = Inr (Some cond, b)"
  then show "splitFullAndPartialTransfer ext parents x options ifOp = Inl AssertionFailure"
    using split_without_scope[of options parents x ext cond b ifOp] by simp
qed

text \<open>At the samples: the loop nest, and a parent that is no allocation scope.\<close>

theorem allocation_scope_walk_witness:
  "isLoop (loopNest ! 0) \<and> isLoop (loopNest ! 1) \<and> \<not> isLoop (loopNest ! 2) \<and>
   hasAutomaticAllocationScope (loopNest ! 2) \<and>
   getAutomaticAllocationScope loopNest = Inr 2 \<and>
   resultOf (splitFullAndPartialTransfer sampleExternals loopNest read1D LinalgCopy (Some None)) = Some success \<and>
   map_option createdInScope
     (changeOf (splitFullAndPartialTransfer sampleExternals loopNest read1D LinalgCopy (Some None))) =
     Some [(2, alloc4)] \<and>
   getAutomaticAllocationScope noScope = Inl AssertionFailure \<and>
   splitFullAndPartialTransfer sampleExternals noScope read1D LinalgCopy None = Inl AssertionFailure"
proof -
  let ?l1 = "\<lparr>opName = ScfForOp, hasAutomaticAllocationScope = True, numRegions = 1\<rparr>"
  let ?l2 = "\<lparr>opName = AffineForOp, hasAutomaticAllocationScope = True, numRegions = 1\<rparr>"
  let ?f = "\<lparr>opName = FuncOp, hasAutomaticAllocationScope = True, numRegions = 1\<rparr>"
  have l: "loopNest = [?l1, ?l2, ?f]" by (simp add: loopNest_def)
  have h: "isLoop ?l1 \<and> isLoop ?l2 \<and> \<not> isLoop ?f \<and> hasAutomaticAllocationScope ?f"
    by (simp add: isLoop_def)
  note t1 = allocation_scope_walk[where ?l1.0 = ?l1 and ?l2.0 = ?l2 and f = ?f and rest = "[]",
      THEN conjunct2, THEN conjunct1]
  have g: "getAutomaticAllocationScope loopNest = Inr 2" using t1 h l by simp
  note t2 = allocation_scope_walk[where options = LinalgCopy and ext = sampleExternals
      and parents = loopNest and x = read1D and ifOp = "Some None",
      THEN conjunct2, THEN conjunct2, THEN conjunct1]
  have a: "allocType read1D = \<lparr>shape = [4], elementType = f32, layout = IdentityLayout\<rparr>"
    by (simp add: allocType_def read1D_def transfer1D_def)
  have c: "map_option createdInScope
     (changeOf (splitFullAndPartialTransfer sampleExternals loopNest read1D LinalgCopy (Some None))) =
     Some [(2, alloc4)]"
    using t2 read1D_split g a by (auto simp: changeOf_def alloc4_def)
  have r: "resultOf (splitFullAndPartialTransfer sampleExternals loopNest read1D LinalgCopy (Some None)) = Some success"
    using read1D_split by (simp add: resultOf_def)
  have n: "getAutomaticAllocationScope noScope = Inl AssertionFailure" by code_simp
  have k: "kind read1D \<noteq> OtherTransferOp" "getMask read1D = None"
    by (simp_all add: read1D_def transfer1D_def)
  have cb: "createInBoundsCond (kDynamic sampleExternals) [] read1D =
              Inr (Some cond1D, [sum1D, DimOp (Arg 0) 0, cond1D])"
    by code_simp
  note t3 = allocation_scope_walk[where options = LinalgCopy and ext = sampleExternals
      and parents = noScope and x = read1D and ifOp = None and cond = cond1D
      and b = "[sum1D, DimOp (Arg 0) 0, cond1D]",
      THEN conjunct2, THEN conjunct2, THEN conjunct2]
  have s: "splitFullAndPartialTransfer sampleExternals noScope read1D LinalgCopy None = Inl AssertionFailure"
    using t3 n k cb by blast
  have i: "isLoop (loopNest ! 0) \<and> isLoop (loopNest ! 1) \<and> \<not> isLoop (loopNest ! 2) \<and>
           hasAutomaticAllocationScope (loopNest ! 2)"
    by (simp add: loopNest_def isLoop_def)
  show ?thesis using i g r c n s by simp
qed

section \<open>The split of a write\<close>

lemma clone_substitutes_vector:
  assumes "kind x = TransferWriteOp v" "getMask x = None" "v \<noteq> source x" "v \<notin> set (indices x)"
  shows "clone x (mapValue v load Map.empty) = x\<lparr>kind := TransferWriteOp load\<rparr>"
proof -
  have i: "map (lookupOrDefault (mapValue v load Map.empty)) (indices x) = indices x"
    using assms(4) by (intro map_idI) (auto simp: lookupOrDefault_def mapValue_def)
  show ?thesis using assms(1-3) i
    by (simp add: clone_def lookupOrDefault_def mapValue_def)
qed

lemma locationIf_no_clones:
  "filter isTransferOp (regionsOf (locationIf x cond t alloc)) = []"
  by (simp add: locationIf_def fastPathRegion_no_clones)

lemma clones_of_split_write:
  assumes "list_all plainOp b"
  shows "clonesOutsideConditionals
           (b @ [ConstantIndexOp 0, locationIf x cond t alloc, firstClone x cond t alloc,
                 ConstantIntOp 1 1, notInBounds cond, IfOp (notInBounds cond) secondThen []]) = 1"
    and "clonesInConditionals
           (b @ [ConstantIndexOp 0, locationIf x cond t alloc, firstClone x cond t alloc,
                 ConstantIntOp 1 1, notInBounds cond, IfOp (notInBounds cond) secondThen []]) =
         length (filter isTransferOp secondThen)"
  using plainOp_no_clones[OF assms] locationIf_no_clones[of x cond t alloc]
  by (simp_all add: clonesOutsideConditionals_def clonesInConditionals_def firstClone_def
      asOperation_def notInBounds_def locationIf_def Let_def)

lemma reissueRegion_clones: "length (filter isTransferOp (reissueRegion x v alloc)) = 1"
  by (simp add: reissueRegion_def asOperation_def Let_def)


text \<open>
  Claim C6, as amended. A successful split of a write under the reissue or the
  bulk-copy strategy creates, after the operations of the bounds condition: the
  conditional that picks the location, one clone of the write outside every
  conditional, and a second conditional with no else region, guarded by the bounds
  condition xor true, which holds exactly when the bounds condition does not. Under the
  reissue strategy the second conditional casts the buffer, loads the vector from it
  and holds a second clone of the write, which (the vector operand being none of the
  other operands) is the original write with the loaded value as its vector. Under the
  bulk-copy strategy it holds operations that are neither transfers nor conditionals
  and one copy from a subview of the buffer to a subview of the original region, both
  of the overlap sizes. The original write is erased. So the write is cloned once
  outside the conditionals, and inside them once under the reissue strategy and never
  under the bulk-copy strategy.
\<close>

theorem write_split_second_conditional:
  assumes "options = VectorTransfer \<or> options = LinalgCopy" "kind x = TransferWriteOp v"
    "splitFullAndPartialTransfer ext parents x options ifOp = Inr (success, c, p)"
  shows "\<exists>cond b t secondThen.
      createInBoundsCond (kDynamic ext) [] x = Inr (Some cond, b) \<and>
      getCastCompatibleMemRefType ext (shapedType (attrs x)) (allocType x) = Inr (Some t) \<and>
      created c = b @ [ConstantIndexOp 0, locationIf x cond t (AllocaOp (allocType x) 32),
                       firstClone x cond t (AllocaOp (allocType x) 32),
                       ConstantIntOp 1 1, notInBounds cond,
                       IfOp (notInBounds cond) secondThen []] \<and>
      (\<forall>run. evalCond run (notInBounds cond) = (\<not> evalCond run cond)) \<and>
      (options = VectorTransfer \<longrightarrow>
         secondThen = reissueRegion x v (AllocaOp (allocType x) 32) \<and>
         (v \<noteq> source x \<and> v \<notin> set (indices x) \<longrightarrow>
            secondThen =
              [TypeCastOp (vectorCellType x) (AllocaOp (allocType x) 32),
               LoadOp (TypeCastOp (vectorCellType x) (AllocaOp (allocType x) 32)),
               asOperation (x\<lparr>kind := TransferWriteOp
                                (LoadOp (TypeCastOp (vectorCellType x) (AllocaOp (allocType x) 32)))\<rparr>),
               YieldOp []])) \<and>
      (options = LinalgCopy \<longrightarrow>
         (\<exists>ops srcOffsets destOffsets strides.
            secondThen =
              ops @ [CopyOp (SubViewOp (AllocaOp (allocType x) 32) srcOffsets
                               (overlapSizes x (AllocaOp (allocType x) 32)) strides)
                            (SubViewOp (source x) destOffsets
                               (overlapSizes x (AllocaOp (allocType x) 32)) strides),
                     YieldOp []] \<and>
            list_all plainOp ops)) \<and>
      root c = x \<and> erased c \<and>
      clonesOutsideConditionals (created c) = 1 \<and>
      clonesInConditionals (created c) = (if options = VectorTransfer then 1 else 0)"
proof -
  let ?alloc = "AllocaOp (allocType x) 32"
  note inv = split_inversion[OF assms(1) assms(3)]
  from inv assms(2) obtain cond b scope t where
    m: "getMask x = None"
    and cb: "createInBoundsCond (kDynamic ext) [] x = Inr (Some cond, b)"
    and g: "getCastCompatibleMemRefType ext (shapedType (attrs x)) (allocType x) = Inr (Some t)"
    and w: "splitWrite options x v ifOp b cond scope ?alloc t (replicate (getTransferRank x) True) =
              Inr (success, c, p)"
    by auto
  from splitWrite_structure[OF w] obtain secondThen where
    rc: "root c = x" "erased c"
    and cr: "created c = b @ [ConstantIndexOp 0, locationIf x cond t ?alloc, firstClone x cond t ?alloc,
                             ConstantIntOp 1 1, notInBounds cond,
                             IfOp (notInBounds cond) secondThen []]"
    and st: "if options = VectorTransfer then secondThen = reissueRegion x v ?alloc
             else \<exists>ops copySrc copyDest.
                    createSubViewIntersection [] x ?alloc = Inr ((copySrc, copyDest), ops) \<and>
                    secondThen = ops @ [CopyOp copySrc copyDest, YieldOp []]"
    by auto
  have pb: "list_all plainOp b" using createInBoundsCond_plain[OF cb] .
  have neg: "\<forall>run. evalCond run (notInBounds cond) = (\<not> evalCond run cond)"
    by (simp add: notInBounds_def)
  have vt: "secondThen = reissueRegion x v ?alloc \<and>
         (v \<noteq> source x \<and> v \<notin> set (indices x) \<longrightarrow>
            secondThen =
              [TypeCastOp (vectorCellType x) ?alloc, LoadOp (TypeCastOp (vectorCellType x) ?alloc),
               asOperation (x\<lparr>kind := TransferWriteOp (LoadOp (TypeCastOp (vectorCellType x) ?alloc))\<rparr>),
               YieldOp []])"
    if "options = VectorTransfer"
    using that st clone_substitutes_vector[OF assms(2) m]
    by (auto simp: reissueRegion_def Let_def)
  have lc: "\<exists>ops srcOffsets destOffsets strides.
            secondThen =
              ops @ [CopyOp (SubViewOp ?alloc srcOffsets (overlapSizes x ?alloc) strides)
                            (SubViewOp (source x) destOffsets (overlapSizes x ?alloc) strides),
                     YieldOp []] \<and>
            list_all plainOp ops"
    if l: "options = LinalgCopy"
  proof -
    from st l obtain ops copySrc copyDest where
      i: "createSubViewIntersection [] x ?alloc = Inr ((copySrc, copyDest), ops)"
      and s2: "secondThen = ops @ [CopyOp copySrc copyDest, YieldOp []]"
      by auto
    from createSubViewIntersection_error[OF i] obtain ty where
      ty: "getType ?alloc = Some ty" "getRank ty = getRank (shapedType (attrs x))" by auto
    have wr: "isaWrite x" using assms(2) by (simp add: isaWrite_def)
    note str = createSubViewIntersection_structure[OF ty, of "[]"]
    have src: "copySrc = SubViewOp ?alloc (map Val (indices x)) (overlapSizes x ?alloc)
                 (replicate (getRank (shapedType (attrs x))) (Attr 1))"
      and dst: "copyDest = SubViewOp (source x) (replicate (getRank (shapedType (attrs x))) (Attr 0))
                 (overlapSizes x ?alloc) (replicate (getRank (shapedType (attrs x))) (Attr 1))"
      and ops: "ops = concat (map (\<lambda>r. [DimOp (source x) (getLeadingShapedRank x + r), DimOp ?alloc r,
                              overlapSize x ?alloc r]) [0..<getTransferRank x]) @ [copySrc, copyDest]"
      using i str wr by auto
    have "list_all plainOp ops"
      using plainOp_intersection[of x ?alloc "[0..<getTransferRank x]"]
      by (simp add: ops src dst)
    then show ?thesis using s2 src dst by blast
  qed
  have n1: "clonesOutsideConditionals (created c) = 1"
    using clones_of_split_write(1)[OF pb] cr by simp
  have n2: "clonesInConditionals (created c) = length (filter isTransferOp secondThen)"
    using clones_of_split_write(2)[OF pb] cr by simp
  have n3: "length (filter isTransferOp secondThen) = (if options = VectorTransfer then 1 else 0)"
  proof (cases "options = VectorTransfer")
    case True
    then show ?thesis using vt reissueRegion_clones by simp
  next
    case False
    then have "options = LinalgCopy" using assms(1) by simp
    from lc[OF this] obtain ops s d where
      "secondThen = ops @ [CopyOp s d, YieldOp []]" "list_all plainOp ops" by blast
    then show ?thesis using False plainOp_no_clones[of ops] by simp
  qed
  have n4: "clonesInConditionals (created c) = (if options = VectorTransfer then 1 else 0)"
    using n2 n3 by simp
  have a1: "options = VectorTransfer \<longrightarrow>
         secondThen = reissueRegion x v ?alloc \<and>
         (v \<noteq> source x \<and> v \<notin> set (indices x) \<longrightarrow>
            secondThen =
              [TypeCastOp (vectorCellType x) ?alloc, LoadOp (TypeCastOp (vectorCellType x) ?alloc),
               asOperation (x\<lparr>kind := TransferWriteOp (LoadOp (TypeCastOp (vectorCellType x) ?alloc))\<rparr>),
               YieldOp []])"
    using vt by blast
  have a2: "options = LinalgCopy \<longrightarrow>
         (\<exists>ops srcOffsets destOffsets strides.
            secondThen =
              ops @ [CopyOp (SubViewOp ?alloc srcOffsets (overlapSizes x ?alloc) strides)
                            (SubViewOp (source x) destOffsets (overlapSizes x ?alloc) strides),
                     YieldOp []] \<and>
            list_all plainOp ops)"
    using lc by blast
  show ?thesis
    using cb g cr neg a1 a2 rc n1 n4 by blast
qed

text \<open>
  The claim as stated fails at the sample write under the bulk-copy strategy: the split
  succeeds with one clone of the write, outside the conditionals, and none inside.
\<close>

theorem bulk_copy_write_cloned_once:
  "resultOf (splitFullAndPartialTransfer sampleExternals loopNest write1D LinalgCopy None) = Some success \<and>
   clonesOutsideConditionals
     (createdOf (splitFullAndPartialTransfer sampleExternals loopNest write1D LinalgCopy None)) = 1 \<and>
   clonesInConditionals
     (createdOf (splitFullAndPartialTransfer sampleExternals loopNest write1D LinalgCopy None)) = 0"
  by code_simp

text \<open>The amended claim at the sample write, under both strategies.\<close>

theorem write_split_second_conditional_witness:
  "kind write1D = TransferWriteOp (Arg 2) \<and>
   Arg 2 \<noteq> source write1D \<and> Arg 2 \<notin> set (indices write1D) \<and>
   resultOf (splitFullAndPartialTransfer sampleExternals loopNest write1D VectorTransfer None) = Some success \<and>
   last (createdOf (splitFullAndPartialTransfer sampleExternals loopNest write1D VectorTransfer None)) =
     reissue1D \<and>
   clonesOutsideConditionals
     (createdOf (splitFullAndPartialTransfer sampleExternals loopNest write1D VectorTransfer None)) = 1 \<and>
   clonesInConditionals
     (createdOf (splitFullAndPartialTransfer sampleExternals loopNest write1D VectorTransfer None)) = 1 \<and>
   resultOf (splitFullAndPartialTransfer sampleExternals loopNest write1D LinalgCopy None) = Some success \<and>
   clonesOutsideConditionals
     (createdOf (splitFullAndPartialTransfer sampleExternals loopNest write1D LinalgCopy None)) = 1 \<and>
   clonesInConditionals
     (createdOf (splitFullAndPartialTransfer sampleExternals loopNest write1D LinalgCopy None)) = 0"
proof -
  have k: "kind write1D = TransferWriteOp (Arg 2)" by (simp add: write1D_def transfer1D_def)
  have d: "Arg 2 \<noteq> source write1D \<and> Arg 2 \<notin> set (indices write1D)"
    by (simp add: write1D_def transfer1D_def)
  have a: "AllocaOp (allocType write1D) 32 = alloc4"
    by (simp add: allocType_def write1D_def transfer1D_def alloc4_def)
  have cb: "createInBoundsCond (kDynamic sampleExternals) [] write1D =
              Inr (Some cond1D, [sum1D, DimOp (Arg 0) 0, cond1D])"
    by code_simp
  have r1: "resultOf (splitFullAndPartialTransfer sampleExternals loopNest write1D VectorTransfer None) = Some success"
    by code_simp
  then obtain c1 p1 where
    s1: "splitFullAndPartialTransfer sampleExternals loopNest write1D VectorTransfer None = Inr (success, c1, p1)"
    by (auto simp: resultOf_def split: sum.splits)
  have o1: "VectorTransfer = VectorTransfer \<or> VectorTransfer = LinalgCopy" by simp
  from write_split_second_conditional[OF o1 k s1] obtain cond b t secondThen where
    w: "createInBoundsCond (kDynamic sampleExternals) [] write1D = Inr (Some cond, b)"
       "created c1 = b @ [ConstantIndexOp 0, locationIf write1D cond t (AllocaOp (allocType write1D) 32),
                       firstClone write1D cond t (AllocaOp (allocType write1D) 32),
                       ConstantIntOp 1 1, notInBounds cond,
                       IfOp (notInBounds cond) secondThen []]"
       "Arg 2 \<noteq> source write1D \<and> Arg 2 \<notin> set (indices write1D) \<longrightarrow>
            secondThen =
              [TypeCastOp (vectorCellType write1D) (AllocaOp (allocType write1D) 32),
               LoadOp (TypeCastOp (vectorCellType write1D) (AllocaOp (allocType write1D) 32)),
               asOperation (write1D\<lparr>kind := TransferWriteOp
                                (LoadOp (TypeCastOp (vectorCellType write1D) (AllocaOp (allocType write1D) 32)))\<rparr>),
               YieldOp []]"
       "clonesOutsideConditionals (created c1) = 1"
       "clonesInConditionals (created c1) = (if VectorTransfer = VectorTransfer then 1 else 0)"
    by blast
  have "cond = cond1D" using w(1) cb by simp
  then have l1: "last (created c1) = reissue1D"
    using w(2,3) d a by (simp add: reissue1D_def)
  have n1: "clonesOutsideConditionals (created c1) = 1 \<and> clonesInConditionals (created c1) = 1"
    using w(4,5) by simp
  have r2: "resultOf (splitFullAndPartialTransfer sampleExternals loopNest write1D LinalgCopy None) = Some success"
    by code_simp
  then obtain c2 p2 where
    s2: "splitFullAndPartialTransfer sampleExternals loopNest write1D LinalgCopy None = Inr (success, c2, p2)"
    by (auto simp: resultOf_def split: sum.splits)
  have o2: "LinalgCopy = VectorTransfer \<or> LinalgCopy = LinalgCopy" by simp
  have n2: "clonesOutsideConditionals (created c2) = 1 \<and> clonesInConditionals (created c2) = 0"
    using write_split_second_conditional[OF o2 k s2] by auto
  show ?thesis using k d r1 r2 l1 n1 n2 s1 s2 by (simp add: createdOf_def)
qed

section \<open>The views of the bulk copy\<close>

text \<open>
  For a read, the source view is on the region at the transfer's indices and the
  destination view on the buffer at all-zero offsets, both of the overlap sizes and
  with unit strides.
\<close>

lemma read_intersection_views:
  assumes "getType alloc = Some t" "getRank t = getRank (shapedType (attrs x))" "\<not> isaWrite x"
  shows "\<exists>b'. createSubViewIntersection b x alloc =
     Inr ((SubViewOp (source x) (map Val (indices x)) (overlapSizes x alloc)
             (replicate (getRank (shapedType (attrs x))) (Attr 1)),
           SubViewOp alloc (replicate (getRank (shapedType (attrs x))) (Attr 0))
             (overlapSizes x alloc) (replicate (getRank (shapedType (attrs x))) (Attr 1))),
          b')"
  using createSubViewIntersection_structure[OF assms(1,2), of b] assms(3) by simp

text \<open>
  For a write the two memrefs change places and the offsets do not: the source view is
  on the buffer at the transfer's indices, the destination view on the region at
  all-zero offsets.
\<close>

lemma write_intersection_views:
  assumes "getType alloc = Some t" "getRank t = getRank (shapedType (attrs x))" "isaWrite x"
  shows "\<exists>b'. createSubViewIntersection b x alloc =
     Inr ((SubViewOp alloc (map Val (indices x)) (overlapSizes x alloc)
             (replicate (getRank (shapedType (attrs x))) (Attr 1)),
           SubViewOp (source x) (replicate (getRank (shapedType (attrs x))) (Attr 0))
             (overlapSizes x alloc) (replicate (getRank (shapedType (attrs x))) (Attr 1))),
          b')"
  using createSubViewIntersection_structure[OF assms(1,2), of b] assms(3) by simp

text \<open>
  Claim C5, at a write on a region of extent 10 with a buffer of extent 4 and the
  index 8. The size of both subviews is the one \<^verbatim>\<open>affine.min\<close> of
  \<open>10 - 8\<close> and \<open>4\<close>, which is 2, and both have unit strides; the source view is on
  the buffer and the destination view on the region. But the offsets stay with the
  source and the destination: the view of the buffer starts at the transfer's index 8,
  and the view of the region starts at 0.
\<close>

theorem write_intersection_offsets:
  "createSubViewIntersection [] write10 alloc4 =
     Inr ((SubViewOp alloc4 [Val (Arg 1)] [Val size1D] [Attr 1],
           SubViewOp (Arg 0) [Attr 0] [Val size1D] [Attr 1]),
          [DimOp (Arg 0) 0, DimOp alloc4 0, size1D,
           SubViewOp alloc4 [Val (Arg 1)] [Val size1D] [Attr 1],
           SubViewOp (Arg 0) [Attr 0] [Val size1D] [Attr 1]]) \<and>
   isaWrite write10 \<and> source write10 = Arg 0 \<and> indices write10 = [Arg 1] \<and>
   evalIndex run10 (Arg 1) = 8 \<and> evalIndex run10 (DimOp (Arg 0) 0) = 10 \<and>
   evalIndex run10 (DimOp alloc4 0) = 4 \<and> evalIndex run10 size1D = 2"
  by code_simp

text \<open>
  Claim C2, at the sample write under the bulk-copy strategy, in a run where the
  region has the extent 3 and the index is 1. The split succeeds; the bounds condition
  is false in the run, so the second conditional runs; it copies 2 elements from the
  buffer at offset 1 to the region at offset 0. The masked write stores the first two
  lanes of the vector at the positions 1 and 2 of the region and leaves position 0 as
  it was.
\<close>

theorem bulk_copy_write_copies_to_region_start:
  "resultOf (splitFullAndPartialTransfer sampleExternals loopNest write1D LinalgCopy None) = Some success \<and>
   last (createdOf (splitFullAndPartialTransfer sampleExternals loopNest write1D LinalgCopy None)) =
     copyBack1D \<and>
   source write1D = Arg 0 \<and> indices write1D = [Arg 1] \<and>
   evalIndex run3 (Arg 1) = 1 \<and> evalIndex run3 (DimOp (Arg 0) 0) = 3 \<and>
   evalCond run3 (notInBounds cond1D) \<and> evalIndex run3 size1D = 2"
  by code_simp


end
